theory Spec2Isabelle
  imports
    Main
    "HOL-Library.Char_ord"
    "HOL-Library.List_Lexorder"
    "HOL-Library.Product_Lexorder"
    "HOL-Library.Multiset"
begin

section \<open>Data model (types.ts)\<close>

text \<open>
  The interfaces of \<^verbatim>\<open>types.ts\<close> as records. A TypeScript \<^verbatim>\<open>number\<close> that holds a
  price, a stock count or a quantity is an \<^typ>\<open>int\<close> (the values are integral and far below
  the range where a double stops being exact); a \<^verbatim>\<open>string\<close> is a \<^typ>\<open>string\<close>. The
  field \<^verbatim>\<open>id\<close> is written \<open>id_prod\<close>, \<open>id_ord\<close>, \<open>id_user\<close> and the field
  \<^verbatim>\<open>image\<close> is written \<open>image_prod\<close>, since \<open>id\<close> and \<open>image\<close> are constants of HOL.
\<close>

datatype tag = BestSeller | Essential | ExamFuel | New | Summer

record Product =
  id_prod :: string
  name :: string
  price :: int
  category :: string
  image_prod :: string
  tag :: "tag option"
  description :: "string option"
  stock :: int

text \<open>\<^verbatim>\<open>interface CartItem extends Product { quantity: number }\<close>\<close>

record CartItem = Product +
  quantity :: int

record User =
  id_user :: string
  name_user :: string
  email :: string
  password :: string
  hostel_user :: "string option"
  room_user :: "string option"

datatype status = confirmed | cancelled | pending

record DeliveryDetails =
  hostel :: string
  room :: string

record Order =
  id_ord :: string
  userId :: string
  items :: "CartItem list"
  totalAmount :: int
  status :: status
  createdAt :: string
  deliveryDetails :: DeliveryDetails

section \<open>The store (localDB.ts) and the environment\<close>

text \<open>
  \<^verbatim>\<open>CampusDashDB\<close> has the tables \<^verbatim>\<open>products\<close> and \<^verbatim>\<open>orders\<close>, both with the primary
  key \<^verbatim>\<open>id\<close>. A table is the list of its rows; the primary key makes the ids of a table
  pairwise distinct, which is \<open>wf_db\<close>.
\<close>

record db =
  products :: "Product list"
  orders :: "Order list"

definition wf_db :: "db \<Rightarrow> bool" where
  "wf_db st \<longleftrightarrow> distinct (map id_prod (products st)) \<and> distinct (map id_ord (orders st))"

text \<open>
  What \<^verbatim>\<open>placeOrder\<close> reads from outside: the string \<^verbatim>\<open>Math.random().toString(36)\<close> and
  the string \<^verbatim>\<open>new Date().toISOString()\<close>.
\<close>

record env =
  random36 :: string
  now :: string

text \<open>
  The errors a call can throw. \<open>InsufficientStock n k\<close> is the JavaScript
  \<^verbatim>\<open>Error(`Insufficient stock for ${n}. Only ${k} left.`)\<close>; \<open>ConstraintError\<close> is what
  \<^verbatim>\<open>Table.add\<close> rejects with when the primary key is already in the table.
\<close>

datatype error = InsufficientStock string int | ConstraintError

subsection \<open>Strings of the JavaScript library\<close>

text \<open>
  \<^verbatim>\<open>substr\<close>, and \<^verbatim>\<open>toUpperCase\<close> as it acts on the one kind of string the code gives it:
  the digits of \<^verbatim>\<open>Math.random().toString(36)\<close>, which are ASCII digits and lower-case ASCII
  letters.
\<close>

definition substr :: "nat \<Rightarrow> nat \<Rightarrow> string \<Rightarrow> string" where
  "substr start len s = take len (drop start s)"

definition upper_char :: "char \<Rightarrow> char" where
  "upper_char c =
     (if CHR ''a'' \<le> c \<and> c \<le> CHR ''z'' then char_of (of_char c - (32::nat)) else c)"

definition toUpperCase :: "string \<Rightarrow> string" where
  "toUpperCase s = map upper_char s"

subsection \<open>Table operations of the store\<close>

text \<open>\<^verbatim>\<open>Table.put\<close> replaces the row with the same primary key, or adds the row.\<close>

definition put :: "Product \<Rightarrow> Product list \<Rightarrow> Product list" where
  "put p tbl =
     (if \<exists>q \<in> set tbl. id_prod q = id_prod p
      then map (\<lambda>q. if id_prod q = id_prod p then p else q) tbl
      else tbl @ [p])"

definition bulkPut :: "Product list \<Rightarrow> Product list \<Rightarrow> Product list" where
  "bulkPut ps tbl = foldl (\<lambda>t p. put p t) tbl ps"

text \<open>\<^verbatim>\<open>Table.add\<close> fails when the primary key is already there.\<close>

definition add_order :: "Order \<Rightarrow> Order list \<Rightarrow> error + Order list" where
  "add_order ord tbl =
     (if id_ord ord \<in> set (map id_ord tbl) then Inl ConstraintError else Inr (tbl @ [ord]))"

text \<open>
  \<^verbatim>\<open>db.transaction('rw', ..., body)\<close>: when the body throws, the transaction is aborted
  and the tables are as before; otherwise its writes are committed.
\<close>

definition transaction :: "(db \<Rightarrow> error + ('a \<times> db)) \<Rightarrow> db \<Rightarrow> (error + 'a) \<times> db" where
  "transaction body st =
     (case body st of
        Inl e \<Rightarrow> (Inl e, st)
      | Inr (v, st') \<Rightarrow> (Inr v, st'))"

section \<open>Order placement (services/mockBackend.ts)\<close>

text \<open>
  Step 2 of \<^verbatim>\<open>placeOrder\<close>, the loop \<^verbatim>\<open>for (const item of items)\<close>: the first line
  whose product is missing or short of stock throws. \<^verbatim>\<open>product?.stock || 0\<close> is \<open>0\<close> for
  a missing product and for a stock of \<open>0\<close>, and the stock otherwise.
\<close>

fun validateStock :: "Product list \<Rightarrow> CartItem list \<Rightarrow> error + unit" where
  "validateStock prods [] = Inr ()"
| "validateStock prods (item # rest) =
     (case find (\<lambda>p. id_prod p = id_prod item) prods of
        None \<Rightarrow> Inl (InsufficientStock (name item) 0)
      | Some product \<Rightarrow>
          if stock product < quantity item
          then Inl (InsufficientStock (name item) (if stock product = 0 then 0 else stock product))
          else validateStock prods rest)"

text \<open>Step 3: \<^verbatim>\<open>products.map(product => ...)\<close> with \<^verbatim>\<open>items.find(i => i.id === product.id)\<close>.\<close>

definition deductStock :: "Product list \<Rightarrow> CartItem list \<Rightarrow> Product list" where
  "deductStock prods its =
     map (\<lambda>product.
            case find (\<lambda>i. id_prod i = id_prod product) its of
              Some item \<Rightarrow> product\<lparr>stock := stock product - quantity item\<rparr>
            | None \<Rightarrow> product) prods"

definition newOrderId :: "env \<Rightarrow> string" where
  "newOrderId e = ''ORD-'' @ toUpperCase (substr 2 9 (random36 e))"

text \<open>Step 5: the record \<^verbatim>\<open>newOrder\<close>.\<close>

definition newOrder :: "string \<Rightarrow> CartItem list \<Rightarrow> DeliveryDetails \<Rightarrow> int \<Rightarrow> env \<Rightarrow> Order" where
  "newOrder uid its dd amount e =
     \<lparr>id_ord = newOrderId e, userId = uid, items = its, totalAmount = amount,
      status = confirmed, createdAt = now e, deliveryDetails = dd\<rparr>"

definition placeOrder_body ::
  "string \<Rightarrow> CartItem list \<Rightarrow> DeliveryDetails \<Rightarrow> int \<Rightarrow> env \<Rightarrow> db \<Rightarrow> error + (Order \<times> db)" where
  "placeOrder_body uid its dd amount e st =
     (let prods = products st in
      case validateStock prods its of
        Inl err \<Rightarrow> Inl err
      | Inr _ \<Rightarrow>
          let updatedProducts = deductStock prods its;
              st1 = st\<lparr>products := bulkPut updatedProducts (products st)\<rparr>;
              ord = newOrder uid its dd amount e
          in case add_order ord (orders st1) of
               Inl err \<Rightarrow> Inl err
             | Inr os \<Rightarrow> Inr (ord, st1\<lparr>orders := os\<rparr>))"

definition placeOrder ::
  "string \<Rightarrow> CartItem list \<Rightarrow> DeliveryDetails \<Rightarrow> int \<Rightarrow> env \<Rightarrow> db \<Rightarrow> (error + Order) \<times> db" where
  "placeOrder uid its dd amount e st = transaction (placeOrder_body uid its dd amount e) st"

text \<open>The identifier that \<^verbatim>\<open>signup\<close> gives a new user, from the same random string.\<close>

definition newUserId :: "string \<Rightarrow> string" where
  "newUserId r = substr 2 9 r"

subsection \<open>Order history\<close>

text \<open>
  \<^verbatim>\<open>db.orders.where('userId').equalsIgnoreCase(userId).reverse().sortBy('createdAt')\<close>.
  The collection walks the index \<^verbatim>\<open>userId\<close> (ordered by the indexed value, then by the
  primary key) and keeps the rows whose value equals the argument up to letter case: a stored
  value matches when its case folding equals the case folding of the argument.
  \<^verbatim>\<open>reverse()\<close> turns the direction round; \<^verbatim>\<open>sortBy\<close> reads the rows into an array and
  sorts it with \<^verbatim>\<open>Array.prototype.sort\<close>, which is stable, on the given field, descending
  for a reversed collection.

  The case folding is the one of the JavaScript engine (\<^verbatim>\<open>String.prototype.toLowerCase\<close> and
  \<^verbatim>\<open>toUpperCase\<close>, over all of Unicode). It is not part of the repository and is a parameter
  \<open>caseFold\<close> of the model: nothing below depends on which letters it folds.
\<close>

definition equalsIgnoreCase :: "(string \<Rightarrow> string) \<Rightarrow> string \<Rightarrow> string \<Rightarrow> bool" where
  "equalsIgnoreCase caseFold a b \<longleftrightarrow> caseFold a = caseFold b"

fun insert_desc :: "Order \<Rightarrow> Order list \<Rightarrow> Order list" where
  "insert_desc x [] = [x]"
| "insert_desc x (y # ys) =
     (if createdAt y \<le> createdAt x then x # y # ys else y # insert_desc x ys)"

definition sortBy_desc :: "Order list \<Rightarrow> Order list" where
  "sortBy_desc xs = foldr insert_desc xs []"

definition getUserOrders :: "(string \<Rightarrow> string) \<Rightarrow> string \<Rightarrow> db \<Rightarrow> Order list" where
  "getUserOrders caseFold uid st =
     sortBy_desc
       (rev (filter (\<lambda>ord. equalsIgnoreCase caseFold (userId ord) uid)
               (sort_key (\<lambda>ord. (userId ord, id_ord ord)) (orders st))))"

section \<open>Cart (App.tsx)\<close>

text \<open>\<^verbatim>\<open>{ ...product, quantity: q }\<close>\<close>

definition cartLine :: "Product \<Rightarrow> int \<Rightarrow> CartItem" where
  "cartLine product q =
     \<lparr>id_prod = id_prod product, name = name product, price = price product,
      category = category product, image_prod = image_prod product, tag = tag product,
      description = description product, stock = stock product, quantity = q\<rparr>"

definition addToCart :: "Product \<Rightarrow> CartItem list \<Rightarrow> CartItem list" where
  "addToCart product prev =
     (case find (\<lambda>item. id_prod item = id_prod product) prev of
        Some existing \<Rightarrow>
          if quantity existing \<ge> stock product then prev
          else map (\<lambda>item. if id_prod item = id_prod product
                            then item\<lparr>quantity := quantity item + 1\<rparr> else item) prev
      | None \<Rightarrow>
          if stock product \<le> 0 then prev
          else prev @ [cartLine product 1])"

definition updateQuantity :: "Product list \<Rightarrow> string \<Rightarrow> int \<Rightarrow> CartItem list \<Rightarrow> CartItem list" where
  "updateQuantity prods i delta prev =
     filter (\<lambda>item. quantity item > 0)
       (map (\<lambda>item.
               if id_prod item = i then
                 (case find (\<lambda>p. id_prod p = i) prods of
                    None \<Rightarrow> item
                  | Some product \<Rightarrow>
                      let newQty = quantity item + delta in
                      if newQty > stock product then item
                      else item\<lparr>quantity := max 0 newQty\<rparr>)
               else item) prev)"

section \<open>Notions used to state the properties\<close>

text \<open>
  A line passes the check of step 2 when its product is in the table with at least the
  requested quantity; \<open>remaining\<close> is the number the error message reports for a line.
\<close>

definition sufficient :: "Product list \<Rightarrow> CartItem \<Rightarrow> bool" where
  "sufficient prods item \<longleftrightarrow>
     (case find (\<lambda>p. id_prod p = id_prod item) prods of
        None \<Rightarrow> False
      | Some product \<Rightarrow> quantity item \<le> stock product)"

definition remaining :: "Product list \<Rightarrow> CartItem \<Rightarrow> int" where
  "remaining prods item =
     (case find (\<lambda>p. id_prod p = id_prod item) prods of
        None \<Rightarrow> 0
      | Some product \<Rightarrow> stock product)"

text \<open>The sum the data model asks the total of an order to be: price times quantity over its lines.\<close>

definition linesTotal :: "CartItem list \<Rightarrow> int" where
  "linesTotal its = sum_list (map (\<lambda>i. price i * quantity i) its)"

text \<open>
  The quantity of a product that a list of lines records, the quantity that the confirmed
  orders of the store record for it, and the invariant of the data model: every stock is
  non-negative and is the original stock less what the confirmed orders record.
\<close>

definition recordedQty :: "string \<Rightarrow> CartItem list \<Rightarrow> int" where
  "recordedQty pid its = sum_list (map quantity (filter (\<lambda>i. id_prod i = pid) its))"

definition orderedQty :: "string \<Rightarrow> Order list \<Rightarrow> int" where
  "orderedQty pid os =
     sum_list (map (\<lambda>ord. recordedQty pid (items ord)) (filter (\<lambda>ord. status ord = confirmed) os))"

definition stock_invariant :: "(string \<Rightarrow> int) \<Rightarrow> db \<Rightarrow> bool" where
  "stock_invariant orig st \<longleftrightarrow>
     list_all (\<lambda>p. 0 \<le> stock p \<and> stock p = orig (id_prod p) - orderedQty (id_prod p) (orders st))
       (products st)"

text \<open>
  A sequence of calls to \<open>placeOrder\<close>, one after the other (the transaction serialises
  them); a call is its arguments and what it reads from the environment.
\<close>

type_synonym call = "string \<times> CartItem list \<times> DeliveryDetails \<times> int \<times> env"

fun placeOrders :: "call list \<Rightarrow> db \<Rightarrow> db" where
  "placeOrders [] st = st"
| "placeOrders ((uid, its, dd, amount, e) # cs) st =
     placeOrders cs (snd (placeOrder uid its dd amount e st))"

text \<open>
  The characters of \<^verbatim>\<open>Math.random().toString(36)\<close>: digits, lower-case letters and the
  point.
\<close>

definition base36_char :: "char \<Rightarrow> bool" where
  "base36_char c \<longleftrightarrow> c \<in> set ''0123456789abcdefghijklmnopqrstuvwxyz.''"

text \<open>
  The lower-case form of an ASCII string (the letters A to Z folded), used to read the random
  part of an order identifier back, and as the case folding of the sample identifiers, which
  are ASCII; a string without lower-case ASCII letters.
\<close>

definition ascii_lower_char :: "char \<Rightarrow> char" where
  "ascii_lower_char c =
     (if CHR ''A'' \<le> c \<and> c \<le> CHR ''Z'' then char_of (of_char c + (32::nat)) else c)"

definition ascii_lower :: "string \<Rightarrow> string" where
  "ascii_lower s = map ascii_lower_char s"

definition no_lower_case :: "string \<Rightarrow> bool" where
  "no_lower_case s \<longleftrightarrow> list_all (\<lambda>c. c \<notin> set ''abcdefghijklmnopqrstuvwxyz'') s"

text \<open>
  The product identifiers are those of the constant \<^verbatim>\<open>PRODUCTS\<close> of \<^verbatim>\<open>constants.ts\<close>, which
  \<^verbatim>\<open>seedProducts\<close> loads into the table and which is not among the sources. They enter as the
  product table of the store; \<open>no_order_prefix\<close> says of a table that no identifier in it
  begins with \<open>ORD-\<close>.
\<close>

definition no_order_prefix :: "Product list \<Rightarrow> bool" where
  "no_order_prefix ps \<longleftrightarrow> list_all (\<lambda>p. take 4 (id_prod p) \<noteq> ''ORD-'') ps"

text \<open>
  What can happen to the store after an order is committed: a product record is written again
  under its identifier with any other price or stock (\<^verbatim>\<open>Table.put\<close>), or \<open>placeOrder\<close> is
  called again.
\<close>

datatype store_op = PutProduct Product | PlaceOrder string "CartItem list" DeliveryDetails int env

fun apply_op :: "store_op \<Rightarrow> db \<Rightarrow> db" where
  "apply_op (PutProduct p) st = st\<lparr>products := put p (products st)\<rparr>"
| "apply_op (PlaceOrder uid its dd amount e) st = snd (placeOrder uid its dd amount e st)"

fun run_ops :: "store_op list \<Rightarrow> db \<Rightarrow> db" where
  "run_ops [] st = st"
| "run_ops (op # ops) st = run_ops ops (apply_op op st)"

text \<open>
  For the cart: the quantity the cart holds of a product (0 when it has no line for it), a
  value clamped between 0 and a stock, and the carts the two operations build from the empty
  cart: one line per product, every quantity positive.
\<close>

definition cartQty :: "string \<Rightarrow> CartItem list \<Rightarrow> int" where
  "cartQty pid cart =
     (case find (\<lambda>item. id_prod item = pid) cart of None \<Rightarrow> 0 | Some item \<Rightarrow> quantity item)"

definition clamped :: "int \<Rightarrow> int \<Rightarrow> int" where
  "clamped s x = max 0 (min s x)"

definition cart_ok :: "CartItem list \<Rightarrow> bool" where
  "cart_ok cart \<longleftrightarrow> distinct (map id_prod cart) \<and> list_all (\<lambda>item. 0 < quantity item) cart"

text \<open>
  A list of orders by descending creation timestamp, and by strictly descending creation
  timestamp.
\<close>

definition descending :: "Order list \<Rightarrow> bool" where
  "descending xs \<longleftrightarrow> sorted_wrt (\<lambda>a b. createdAt b \<le> createdAt a) xs"

definition strictly_descending :: "Order list \<Rightarrow> bool" where
  "strictly_descending xs \<longleftrightarrow> sorted_wrt (\<lambda>a b. createdAt b < createdAt a) xs"

subsection \<open>Sample data\<close>

definition maggi :: Product where
  "maggi = \<lparr>id_prod = ''p1'', name = ''Maggi'', price = 14, category = ''Munchies'',
            image_prod = ''maggi.png'', tag = Some BestSeller, description = None, stock = 3\<rparr>"

definition pen :: Product where
  "pen = \<lparr>id_prod = ''p2'', name = ''Pen'', price = 10, category = ''Stationery'',
          image_prod = ''pen.png'', tag = None, description = None, stock = 5\<rparr>"

definition ghost :: CartItem where
  "ghost = \<lparr>id_prod = ''p9'', name = ''Ghost'', price = 1, category = ''Tech'',
            image_prod = '''', tag = None, description = None, stock = 7, quantity = 1\<rparr>"

definition st0 :: db where
  "st0 = \<lparr>products = [maggi, pen], orders = []\<rparr>"

definition env0 :: env where
  "env0 = \<lparr>random36 = ''0.4fzyo82mvyr'', now = ''2024-01-01T10:00:00.000Z''\<rparr>"

definition dd0 :: DeliveryDetails where
  "dd0 = \<lparr>hostel = ''H1'', room = ''101''\<rparr>"

definition orig0 :: "string \<Rightarrow> int" where
  "orig0 pid = (if pid = ''p1'' then 3 else if pid = ''p2'' then 5 else 0)"

definition env1 :: env where
  "env1 = \<lparr>random36 = ''0.k3j2h1g0abc'', now = ''2024-01-01T10:00:00.000Z''\<rparr>"

definition env2 :: env where
  "env2 = \<lparr>random36 = ''0.zz9'', now = ''2024-02-01T08:30:00.000Z''\<rparr>"

section \<open>Properties of the store operations\<close>

lemmas ex_defs = maggi_def pen_def ghost_def st0_def env0_def dd0_def cartLine_def

lemma validateStock_ok_iff:
  "validateStock prods its = Inr () \<longleftrightarrow> (\<forall>item \<in> set its. sufficient prods item)"
  by (induction its) (auto simp: sufficient_def split: option.splits)

lemma validateStock_first_failure:
  "validateStock prods its = Inl err \<longleftrightarrow>
     (\<exists>pre item post. its = pre @ item # post \<and> (\<forall>i \<in> set pre. sufficient prods i) \<and>
        \<not> sufficient prods item \<and> err = InsufficientStock (name item) (remaining prods item))"
proof (induction its)
  case Nil
  then show ?case by simp
next
  case (Cons a its)
  show ?case
  proof (cases "sufficient prods a")
    case True
    then have "validateStock prods (a # its) = validateStock prods its"
      by (auto simp: sufficient_def split: option.splits)
    moreover have "(\<exists>pre item post. a # its = pre @ item # post \<and> (\<forall>i \<in> set pre. sufficient prods i) \<and>
        \<not> sufficient prods item \<and> err = InsufficientStock (name item) (remaining prods item))
      \<longleftrightarrow> (\<exists>pre item post. its = pre @ item # post \<and> (\<forall>i \<in> set pre. sufficient prods i) \<and>
        \<not> sufficient prods item \<and> err = InsufficientStock (name item) (remaining prods item))"
      (is "?L \<longleftrightarrow> ?R")
    proof
      assume ?L
      then obtain pre item post where h: "a # its = pre @ item # post" "\<forall>i \<in> set pre. sufficient prods i"
        "\<not> sufficient prods item" "err = InsufficientStock (name item) (remaining prods item)" by blast
      from h(1,3) True obtain pre' where "pre = a # pre'" by (cases pre) auto
      with h show ?R by auto
    next
      assume ?R
      then obtain pre item post where h: "its = pre @ item # post" "\<forall>i \<in> set pre. sufficient prods i"
        "\<not> sufficient prods item" "err = InsufficientStock (name item) (remaining prods item)" by blast
      then have "a # its = (a # pre) @ item # post" "\<forall>i \<in> set (a # pre). sufficient prods i"
        using True by auto
      with h(3,4) show ?L by blast
    qed
    ultimately show ?thesis using Cons.IH by simp
  next
    case False
    then have v: "validateStock prods (a # its) = Inl (InsufficientStock (name a) (remaining prods a))"
      by (auto simp: sufficient_def remaining_def split: option.splits)
    show ?thesis
    proof
      assume "validateStock prods (a # its) = Inl err"
      with v have "err = InsufficientStock (name a) (remaining prods a)" by simp
      with False have "a # its = [] @ a # its \<and> (\<forall>i \<in> set []. sufficient prods i) \<and>
        \<not> sufficient prods a \<and> err = InsufficientStock (name a) (remaining prods a)" by simp
      then show "\<exists>pre item post. a # its = pre @ item # post \<and> (\<forall>i \<in> set pre. sufficient prods i) \<and>
        \<not> sufficient prods item \<and> err = InsufficientStock (name item) (remaining prods item)" by blast
    next
      assume "\<exists>pre item post. a # its = pre @ item # post \<and> (\<forall>i \<in> set pre. sufficient prods i) \<and>
        \<not> sufficient prods item \<and> err = InsufficientStock (name item) (remaining prods item)"
      then obtain pre item post where h: "a # its = pre @ item # post" "\<forall>i \<in> set pre. sufficient prods i"
        "\<not> sufficient prods item" "err = InsufficientStock (name item) (remaining prods item)" by blast
      from h(1,2) False have "pre = []" by (cases pre) auto
      with h have "item = a" by simp
      with h v show "validateStock prods (a # its) = Inl err" by simp
    qed
  qed
qed

lemma validateStock_cases:
  "validateStock prods its = Inr () \<or> (\<exists>err. validateStock prods its = Inl err)"
  by (cases "validateStock prods its") auto

lemma put_same_id:
  assumes "id_prod p \<notin> set (map id_prod as)" "id_prod p \<notin> set (map id_prod bs)" "id_prod p' = id_prod p"
  shows "put p' (as @ p # bs) = as @ p' # bs"
proof -
  have "map (\<lambda>q. if id_prod q = id_prod p then p' else q) as = as" using assms(1)
    by (induction as) auto
  moreover have "map (\<lambda>q. if id_prod q = id_prod p then p' else q) bs = bs" using assms(2)
    by (induction bs) auto
  ultimately show ?thesis using assms(3) by (simp add: put_def)
qed

lemma bulkPut_map_aux:
  assumes "\<And>p. id_prod (f p) = id_prod p"
  shows "distinct (map id_prod (as @ xs)) \<Longrightarrow>
    foldl (\<lambda>t p. put p t) (map f as @ xs) (map f xs) = map f as @ map f xs"
proof (induction xs arbitrary: as)
  case Nil
  then show ?case by simp
next
  case (Cons x xs)
  have ids: "map id_prod (map f as) = map id_prod as" using assms by (induction as) auto
  from Cons.prems have "id_prod x \<notin> set (map id_prod (map f as))" "id_prod x \<notin> set (map id_prod xs)"
    unfolding ids by auto
  then have "put (f x) (map f as @ x # xs) = map f as @ f x # xs"
    using assms by (intro put_same_id) auto
  moreover have "distinct (map id_prod ((as @ [x]) @ xs))" using Cons.prems by simp
  from Cons.IH[OF this] have "foldl (\<lambda>t p. put p t) (map f (as @ [x]) @ xs) (map f xs) = map f (as @ [x]) @ map f xs" .
  ultimately show ?case by simp
qed

lemma bulkPut_deductStock:
  assumes "distinct (map id_prod prods)"
  shows "bulkPut (deductStock prods its) prods = deductStock prods its"
proof -
  let ?f = "\<lambda>product. case find (\<lambda>i. id_prod i = id_prod product) its of
              Some item \<Rightarrow> product\<lparr>stock := stock product - quantity item\<rparr>
            | None \<Rightarrow> product"
  have "\<And>p. id_prod (?f p) = id_prod p" by (simp split: option.splits)
  from bulkPut_map_aux[of ?f "[]" prods, OF this] assms
  show ?thesis by (simp add: bulkPut_def deductStock_def)
qed

lemma newOrder_sel [simp]:
  "id_ord (newOrder uid its dd amount e) = newOrderId e"
  "userId (newOrder uid its dd amount e) = uid"
  "items (newOrder uid its dd amount e) = its"
  "totalAmount (newOrder uid its dd amount e) = amount"
  "status (newOrder uid its dd amount e) = confirmed"
  "createdAt (newOrder uid its dd amount e) = now e"
  "deliveryDetails (newOrder uid its dd amount e) = dd"
  by (simp_all add: newOrder_def)

lemma placeOrder_Inl:
  "placeOrder uid its dd amount e st = (Inl err, st') \<longleftrightarrow>
     st' = st \<and> (validateStock (products st) its = Inl err \<or>
       validateStock (products st) its = Inr () \<and> newOrderId e \<in> set (map id_ord (orders st)) \<and> err = ConstraintError)"
  by (auto simp: placeOrder_def transaction_def placeOrder_body_def add_order_def Let_def
      split: sum.splits if_splits)

lemma placeOrder_Inr:
  "placeOrder uid its dd amount e st = (Inr ord, st') \<longleftrightarrow>
     validateStock (products st) its = Inr () \<and> newOrderId e \<notin> set (map id_ord (orders st)) \<and>
     ord = newOrder uid its dd amount e \<and>
     st' = \<lparr>products = bulkPut (deductStock (products st) its) (products st),
           orders = orders st @ [newOrder uid its dd amount e]\<rparr>"
  by (auto simp: placeOrder_def transaction_def placeOrder_body_def add_order_def Let_def
      split: sum.splits if_splits)

lemma placeOrder_eq:
  "placeOrder uid its dd amount e st =
     (if validateStock (products st) its = Inr () then
        if newOrderId e \<in> set (map id_ord (orders st)) then (Inl ConstraintError, st)
        else (Inr (newOrder uid its dd amount e),
              \<lparr>products = bulkPut (deductStock (products st) its) (products st),
               orders = orders st @ [newOrder uid its dd amount e]\<rparr>)
      else (Inl (projl (validateStock (products st) its)), st))"
proof (cases "validateStock (products st) its")
  case (Inl a)
  then show ?thesis by (simp add: placeOrder_def transaction_def placeOrder_body_def)
next
  case (Inr b)
  then show ?thesis
    by (simp add: placeOrder_def transaction_def placeOrder_body_def add_order_def Let_def)
qed

lemma newOrderId_env0: "newOrderId env0 = ''ORD-4FZYO82MV''"
  by code_simp

lemma placeOrder_isl:
  "isl (fst (placeOrder uid its dd amount e st)) \<longleftrightarrow>
     \<not> (validateStock (products st) its = Inr () \<and> newOrderId e \<notin> set (map id_ord (orders st)))"
  by (simp add: placeOrder_eq)

lemma placeOrder_products:
  "products (snd (placeOrder uid its dd amount e st)) =
     (if validateStock (products st) its = Inr () \<and> newOrderId e \<notin> set (map id_ord (orders st))
      then bulkPut (deductStock (products st) its) (products st) else products st)"
  by (simp add: placeOrder_eq)

lemma deductStock_Nil: "deductStock prods [] = prods"
  by (simp add: deductStock_def)

lemma find_append_absent:
  "find P xs = None \<Longrightarrow> find P (xs @ ys) = find P ys"
  by (induction xs) (auto split: if_splits)

lemma find_map_same_id:
  assumes "\<And>q. id_prod (f q) = id_prod q"
  shows "find (\<lambda>q. id_prod q = pid) (map f ps) = map_option f (find (\<lambda>q. id_prod q = pid) ps)"
  using assms by (induction ps) auto

lemma find_filter_Cons:
  "find P xs = Some x \<Longrightarrow> \<exists>ys. filter P xs = x # ys"
  by (induction xs) (auto split: if_splits)

lemma find_distinct_key:
  "distinct (map k xs) \<Longrightarrow> x \<in> set xs \<Longrightarrow> find (\<lambda>y. k y = k x) xs = Some x"
  by (induction xs) (auto simp: rev_image_eqI)

lemma length_filter_two:
  assumes "i < j" "j < length xs" "P (xs ! i)" "P (xs ! j)"
  shows "2 \<le> length (filter P xs)"
proof -
  have "xs ! i \<in> set (take j xs)"
    using assms(1,2) by (metis in_set_conv_nth length_take min.absorb2 nth_take less_or_eq_imp_le)
  then have "filter P (take j xs) \<noteq> []" using assms(3) by (auto simp: filter_empty_conv)
  then have a: "1 \<le> length (filter P (take j xs))" by (cases "filter P (take j xs)") auto
  have "xs ! j \<in> set (drop j xs)"
    using assms(2) by (metis Cons_nth_drop_Suc list.set_intros(1))
  then have "filter P (drop j xs) \<noteq> []" using assms(4) by (auto simp: filter_empty_conv)
  then have b: "1 \<le> length (filter P (drop j xs))" by (cases "filter P (drop j xs)") auto
  have "filter P xs = filter P (take j xs) @ filter P (drop j xs)"
    by (metis append_take_drop_id filter_append)
  with a b show ?thesis by simp
qed

lemma sum_list_pos:
  "xs \<noteq> [] \<Longrightarrow> (\<forall>x \<in> set xs. 0 < (f x :: int)) \<Longrightarrow> 0 < sum_list (map f xs)"
proof (induction xs)
  case Nil
  then show ?case by simp
next
  case (Cons a xs)
  show ?case
  proof (cases "xs = []")
    case True
    with Cons.prems show ?thesis by simp
  next
    case False
    with Cons have "0 < sum_list (map f xs)" "0 < f a" by simp_all
    then show ?thesis by simp
  qed
qed

lemma placeOrder_success_products:
  assumes "wf_db st" "placeOrder uid its dd amount e st = (Inr ord, st')"
  shows "products st' = deductStock (products st) its"
    and "orders st' = orders st @ [ord]"
    and "ord = newOrder uid its dd amount e"
    and "\<forall>item \<in> set its. sufficient (products st) item"
    and "newOrderId e \<notin> set (map id_ord (orders st))"
proof -
  from assms(2) have v: "validateStock (products st) its = Inr ()"
    and n: "newOrderId e \<notin> set (map id_ord (orders st))"
    and o: "ord = newOrder uid its dd amount e"
    and s: "st' = \<lparr>products = bulkPut (deductStock (products st) its) (products st),
                   orders = orders st @ [newOrder uid its dd amount e]\<rparr>"
    unfolding placeOrder_Inr by blast+
  from assms(1) have "distinct (map id_prod (products st))" by (simp add: wf_db_def)
  then show "products st' = deductStock (products st) its" using s
    by (simp add: bulkPut_deductStock)
  show "orders st' = orders st @ [ord]" using s o by simp
  show "ord = newOrder uid its dd amount e" by (rule o)
  show "\<forall>item \<in> set its. sufficient (products st) item" using v by (simp add: validateStock_ok_iff)
  show "newOrderId e \<notin> set (map id_ord (orders st))" by (rule n)
qed

lemma find_deductStock:
  "find (\<lambda>q. id_prod q = pid) (deductStock prods its) =
     map_option (\<lambda>product. case find (\<lambda>i. id_prod i = id_prod product) its of
              Some item \<Rightarrow> product\<lparr>stock := stock product - quantity item\<rparr>
            | None \<Rightarrow> product) (find (\<lambda>q. id_prod q = pid) prods)"
  unfolding deductStock_def
  by (rule find_map_same_id) (simp split: option.splits)

lemma example_duplicate_lines:
  "placeOrder ''u1'' [cartLine maggi 2, cartLine maggi 2] dd0 56 env0 st0 =
     (Inr (newOrder ''u1'' [cartLine maggi 2, cartLine maggi 2] dd0 56 env0),
      \<lparr>products = [maggi\<lparr>stock := 1\<rparr>, pen],
       orders = [newOrder ''u1'' [cartLine maggi 2, cartLine maggi 2] dd0 56 env0]\<rparr>)"
proof -
  have "validateStock (products st0) [cartLine maggi 2, cartLine maggi 2] = Inr ()"
    by (simp add: ex_defs)
  moreover have "bulkPut (deductStock (products st0) [cartLine maggi 2, cartLine maggi 2]) (products st0)
      = [maggi\<lparr>stock := 1\<rparr>, pen]"
    by (simp add: ex_defs bulkPut_def deductStock_def put_def)
  moreover have "orders st0 = []" by (simp add: st0_def)
  ultimately show ?thesis by (simp add: placeOrder_eq)
qed

lemma wf_st0: "wf_db st0"
  by (simp add: wf_db_def ex_defs)

section \<open>Order placement: failure on insufficient stock\<close>

text \<open>
  Claim C1. When some line of a call to \<open>placeOrder\<close> asks for more than the stock its
  product has in the table, the call fails with the stock-insufficiency error of the first
  line that does not pass the check, naming that line and the stock that remains for it, and
  the store after the call is the store before it: no stock is changed, no order is added.
\<close>

theorem C1_insufficient_stock_aborts:
  assumes "item \<in> set its"
    and "find (\<lambda>p. id_prod p = id_prod item) (products st) = Some product"
    and "stock product < quantity item"
  shows "\<exists>pre failing post.
           its = pre @ failing # post \<and>
           (\<forall>i \<in> set pre. sufficient (products st) i) \<and>
           \<not> sufficient (products st) failing \<and>
           placeOrder uid its dd amount e st =
             (Inl (InsufficientStock (name failing) (remaining (products st) failing)), st)"
proof -
  from assms(2,3) have "\<not> sufficient (products st) item" by (simp add: sufficient_def)
  with assms(1) have "validateStock (products st) its \<noteq> Inr ()"
    by (auto simp: validateStock_ok_iff)
  then obtain err where err: "validateStock (products st) its = Inl err"
    using validateStock_cases by blast
  then obtain pre failing post where f: "its = pre @ failing # post"
    "\<forall>i \<in> set pre. sufficient (products st) i" "\<not> sufficient (products st) failing"
    "err = InsufficientStock (name failing) (remaining (products st) failing)"
    unfolding validateStock_first_failure by blast
  from err have "placeOrder uid its dd amount e st = (Inl err, st)"
    by (simp add: placeOrder_Inl)
  with f show ?thesis by blast
qed

theorem C1_witness:
  "cartLine maggi 10 \<in> set [cartLine maggi 10] \<and>
   find (\<lambda>p. id_prod p = id_prod (cartLine maggi 10)) (products st0) = Some maggi \<and>
   stock maggi < quantity (cartLine maggi 10) \<and>
   placeOrder ''u1'' [cartLine maggi 10] dd0 140 env0 st0 = (Inl (InsufficientStock ''Maggi'' 3), st0)"
proof -
  have h1: "cartLine maggi 10 \<in> set [cartLine maggi 10]" by simp
  have h2: "find (\<lambda>p. id_prod p = id_prod (cartLine maggi 10)) (products st0) = Some maggi"
    by (simp add: ex_defs)
  have h3: "stock maggi < quantity (cartLine maggi 10)" by (simp add: ex_defs)
  from C1_insufficient_stock_aborts [OF h1 h2 h3, of "''u1''" dd0 140 env0]
  obtain pre failing post where f: "[cartLine maggi 10] = pre @ failing # post"
    "placeOrder ''u1'' [cartLine maggi 10] dd0 140 env0 st0 =
             (Inl (InsufficientStock (name failing) (remaining (products st0) failing)), st0)"
    by blast
  from f(1) have "failing = cartLine maggi 10" by (cases pre) auto
  moreover have "name (cartLine maggi 10) = ''Maggi''" "remaining (products st0) (cartLine maggi 10) = 3"
    by (simp_all add: ex_defs remaining_def)
  ultimately show ?thesis using f(2) h1 h2 h3 by simp
qed

section \<open>Order placement: a line whose product is not in the table\<close>

lemma example_mixed_failure:
  "placeOrder ''u1'' [cartLine maggi 10, ghost] dd0 141 env0 st0
     = (Inl (InsufficientStock ''Maggi'' 3), st0)"
  by (simp add: placeOrder_eq) (simp add: ex_defs)

text \<open>
  Claim C10, as stated, at a concrete input. The second line names a product that is not in
  the table, yet the error reports a remaining stock of 3, not 0: the first line fails first,
  and the error is the one of the first failing line.
\<close>

theorem C10_counterexample:
  "ghost \<in> set [cartLine maggi 10, ghost] \<and>
   id_prod ghost \<notin> set (map id_prod (products st0)) \<and>
   placeOrder ''u1'' [cartLine maggi 10, ghost] dd0 141 env0 st0
     = (Inl (InsufficientStock ''Maggi'' 3), st0)"
  using example_mixed_failure by (simp add: ex_defs)

text \<open>
  Claim C10, amended. A call with a line whose product is not in the table fails with a
  stock-insufficiency error and leaves the store as it was; there is no other kind of error
  for a missing product. The error is the one of the first failing line and reports what
  remains for that line: when the line with the missing product is the first that fails, the
  error names that line and reports a remaining stock of 0, which is also what a product that
  is in the table with a stock of 0 gives; when an earlier line is short of stock and is the
  first that fails, the error names that earlier line and reports the stock of its product.
\<close>

theorem C10_missing_product_is_insufficient_stock:
  assumes "item \<in> set its"
    and "find (\<lambda>p. id_prod p = id_prod item) (products st) = None"
  shows "(\<exists>pre failing post.
            its = pre @ failing # post \<and>
            (\<forall>i \<in> set pre. sufficient (products st) i) \<and>
            \<not> sufficient (products st) failing \<and>
            placeOrder uid its dd amount e st =
              (Inl (InsufficientStock (name failing) (remaining (products st) failing)), st)) \<and>
         (\<forall>pre post. its = pre @ item # post \<and> (\<forall>i \<in> set pre. sufficient (products st) i) \<longrightarrow>
            placeOrder uid its dd amount e st = (Inl (InsufficientStock (name item) 0), st)) \<and>
         (\<forall>pre failing post p.
            its = pre @ failing # post \<and> (\<forall>i \<in> set pre. sufficient (products st) i) \<and>
            find (\<lambda>q. id_prod q = id_prod failing) (products st) = Some p \<and>
            stock p < quantity failing \<longrightarrow>
            placeOrder uid its dd amount e st = (Inl (InsufficientStock (name failing) (stock p)), st)) \<and>
         (\<forall>p. id_prod p = id_prod item \<and> stock p = 0 \<and> 0 < quantity item \<longrightarrow>
            fst (placeOrder uid [item] dd amount e (st\<lparr>products := [p]\<rparr>))
              = fst (placeOrder uid [item] dd amount e (st\<lparr>products := []\<rparr>)))"
proof (intro conjI allI impI)
  from assms(2) have ns: "\<not> sufficient (products st) item" "remaining (products st) item = 0"
    by (simp_all add: sufficient_def remaining_def)
  with assms(1) have "validateStock (products st) its \<noteq> Inr ()"
    by (auto simp: validateStock_ok_iff)
  then obtain err where err: "validateStock (products st) its = Inl err"
    using validateStock_cases by blast
  then obtain pre failing post where f: "its = pre @ failing # post"
    "\<forall>i \<in> set pre. sufficient (products st) i" "\<not> sufficient (products st) failing"
    "err = InsufficientStock (name failing) (remaining (products st) failing)"
    unfolding validateStock_first_failure by blast
  from err have "placeOrder uid its dd amount e st = (Inl err, st)"
    by (simp add: placeOrder_Inl)
  with f show "\<exists>pre failing post.
            its = pre @ failing # post \<and>
            (\<forall>i \<in> set pre. sufficient (products st) i) \<and>
            \<not> sufficient (products st) failing \<and>
            placeOrder uid its dd amount e st =
              (Inl (InsufficientStock (name failing) (remaining (products st) failing)), st)"
    by blast
  fix pre post
  assume "its = pre @ item # post \<and> (\<forall>i \<in> set pre. sufficient (products st) i)"
  then have "its = pre @ item # post \<and> (\<forall>i \<in> set pre. sufficient (products st) i) \<and>
        \<not> sufficient (products st) item \<and>
        InsufficientStock (name item) 0 = InsufficientStock (name item) (remaining (products st) item)"
    using ns by simp
  then have "validateStock (products st) its = Inl (InsufficientStock (name item) 0)"
    unfolding validateStock_first_failure by (intro exI)
  then show "placeOrder uid its dd amount e st = (Inl (InsufficientStock (name item) 0), st)"
    by (simp add: placeOrder_Inl)
next
  fix pre failing post and p :: Product
  assume a: "its = pre @ failing # post \<and> (\<forall>i \<in> set pre. sufficient (products st) i) \<and>
            find (\<lambda>q. id_prod q = id_prod failing) (products st) = Some p \<and>
            stock p < quantity failing"
  then have "\<not> sufficient (products st) failing" "remaining (products st) failing = stock p"
    by (simp_all add: sufficient_def remaining_def)
  with a have "its = pre @ failing # post \<and> (\<forall>i \<in> set pre. sufficient (products st) i) \<and>
        \<not> sufficient (products st) failing \<and>
        InsufficientStock (name failing) (stock p)
          = InsufficientStock (name failing) (remaining (products st) failing)"
    by simp
  then have "validateStock (products st) its = Inl (InsufficientStock (name failing) (stock p))"
    unfolding validateStock_first_failure by (intro exI)
  then show "placeOrder uid its dd amount e st = (Inl (InsufficientStock (name failing) (stock p)), st)"
    by (simp add: placeOrder_Inl)
next
  fix p :: Product
  assume "id_prod p = id_prod item \<and> stock p = 0 \<and> 0 < quantity item"
  then show "fst (placeOrder uid [item] dd amount e (st\<lparr>products := [p]\<rparr>))
              = fst (placeOrder uid [item] dd amount e (st\<lparr>products := []\<rparr>))"
    by (simp add: placeOrder_eq)
qed

theorem C10_witness:
  "ghost \<in> set [cartLine pen 2, ghost] \<and>
   ghost \<in> set [cartLine maggi 10, ghost] \<and>
   find (\<lambda>p. id_prod p = id_prod ghost) (products st0) = None \<and>
   placeOrder ''u1'' [cartLine pen 2, ghost] dd0 21 env0 st0
     = (Inl (InsufficientStock ''Ghost'' 0), st0) \<and>
   find (\<lambda>q. id_prod q = id_prod (cartLine maggi 10)) (products st0) = Some maggi \<and>
   stock maggi < quantity (cartLine maggi 10) \<and>
   placeOrder ''u2'' [cartLine maggi 10, ghost] dd0 141 env0 st0
     = (Inl (InsufficientStock ''Maggi'' 3), st0)"
proof -
  have h1: "ghost \<in> set [cartLine pen 2, ghost]" by simp
  have h1': "ghost \<in> set [cartLine maggi 10, ghost]" by simp
  have h2: "find (\<lambda>p. id_prod p = id_prod ghost) (products st0) = None"
    by (simp add: ex_defs)
  have h3: "[cartLine pen 2, ghost] = [cartLine pen 2] @ ghost # [] \<and>
      (\<forall>i \<in> set [cartLine pen 2]. sufficient (products st0) i)"
    by (simp add: ex_defs sufficient_def)
  have f: "find (\<lambda>q. id_prod q = id_prod (cartLine maggi 10)) (products st0) = Some maggi"
    by (simp add: ex_defs)
  have l: "stock maggi < quantity (cartLine maggi 10)" by (simp add: ex_defs)
  have h4: "[cartLine maggi 10, ghost] = [] @ cartLine maggi 10 # [ghost] \<and>
      (\<forall>i \<in> set []. sufficient (products st0) i) \<and>
      find (\<lambda>q. id_prod q = id_prod (cartLine maggi 10)) (products st0) = Some maggi \<and>
      stock maggi < quantity (cartLine maggi 10)"
    using f l by simp
  note r = C10_missing_product_is_insufficient_stock [OF h1 h2, of "''u1''" dd0 21 env0]
  from r [THEN conjunct2, THEN conjunct1, THEN spec, THEN spec, THEN mp, OF h3]
  have "placeOrder ''u1'' [cartLine pen 2, ghost] dd0 21 env0 st0
     = (Inl (InsufficientStock (name ghost) 0), st0)" .
  then have a: "placeOrder ''u1'' [cartLine pen 2, ghost] dd0 21 env0 st0
     = (Inl (InsufficientStock ''Ghost'' 0), st0)" by (simp add: ghost_def)
  note r' = C10_missing_product_is_insufficient_stock [OF h1' h2, of "''u2''" dd0 141 env0]
  from r' [THEN conjunct2, THEN conjunct2, THEN conjunct1,
      THEN spec, THEN spec, THEN spec, THEN spec, THEN mp, OF h4]
  have "placeOrder ''u2'' [cartLine maggi 10, ghost] dd0 141 env0 st0
     = (Inl (InsufficientStock (name (cartLine maggi 10)) (stock maggi)), st0)" .
  then have b: "placeOrder ''u2'' [cartLine maggi 10, ghost] dd0 141 env0 st0
     = (Inl (InsufficientStock ''Maggi'' 3), st0)" by (simp add: maggi_def cartLine_def)
  from h1 h1' h2 a f l b show ?thesis by (intro conjI)
qed

section \<open>Order placement: the shape of the request is not checked\<close>

lemma example_empty_request:
  "placeOrder ''u1'' [] \<lparr>hostel = '''', room = ''''\<rparr> 0 env0 st0 =
     (Inr (newOrder ''u1'' [] \<lparr>hostel = '''', room = ''''\<rparr> 0 env0),
      st0\<lparr>orders := [newOrder ''u1'' [] \<lparr>hostel = '''', room = ''''\<rparr> 0 env0]\<rparr>)"
proof -
  have "bulkPut (deductStock (products st0) []) (products st0) = products st0"
    by (simp add: deductStock_Nil) (simp add: ex_defs bulkPut_def put_def)
  moreover have "orders st0 = []" by (simp add: st0_def)
  ultimately show ?thesis by (simp add: placeOrder_eq)
qed

text \<open>
  Claim C3, as stated, at a concrete input. With no lines and with an empty hostel and an
  empty room the call is not rejected: it commits an order and adds it to the order table.
\<close>

theorem C3_counterexample:
  "placeOrder ''u1'' [] \<lparr>hostel = '''', room = ''''\<rparr> 0 env0 st0 =
     (Inr (newOrder ''u1'' [] \<lparr>hostel = '''', room = ''''\<rparr> 0 env0),
      st0\<lparr>orders := [newOrder ''u1'' [] \<lparr>hostel = '''', room = ''''\<rparr> 0 env0]\<rparr>)"
  by (rule example_empty_request)

text \<open>
  Claim C3, amended. \<open>placeOrder\<close> has no validation step. A call with an empty list of
  lines passes the stock check and, unless the generated identifier is already in the order
  table, commits a confirmed order with no lines, leaving the products as they were and adding
  just that order. The destination is never inspected: whether a call succeeds, and what it
  does to the stock, is the same for an empty hostel or room as for any other destination.
\<close>

theorem C3_no_validation_of_request_shape:
  assumes "wf_db st" and "newOrderId e \<notin> set (map id_ord (orders st))"
  shows "placeOrder uid [] dd amount e st =
           (Inr (newOrder uid [] dd amount e),
            st\<lparr>orders := orders st @ [newOrder uid [] dd amount e]\<rparr>) \<and>
         (\<forall>its dd'. isl (fst (placeOrder uid its dd' amount e st))
                       = isl (fst (placeOrder uid its dd amount e st)) \<and>
                     products (snd (placeOrder uid its dd' amount e st))
                       = products (snd (placeOrder uid its dd amount e st)))"
proof (intro conjI allI)
  from assms(1) have "bulkPut (deductStock (products st) []) (products st) = products st"
    using bulkPut_deductStock [of "products st" "[]"] by (simp add: wf_db_def deductStock_Nil)
  with assms(2) show "placeOrder uid [] dd amount e st =
           (Inr (newOrder uid [] dd amount e),
            st\<lparr>orders := orders st @ [newOrder uid [] dd amount e]\<rparr>)"
    by (simp add: placeOrder_eq)
next
  fix its dd'
  show "isl (fst (placeOrder uid its dd' amount e st))
                       = isl (fst (placeOrder uid its dd amount e st))"
    by (simp add: placeOrder_isl)
  show "products (snd (placeOrder uid its dd' amount e st))
                       = products (snd (placeOrder uid its dd amount e st))"
    by (simp add: placeOrder_products)
qed

theorem C3_witness:
  "wf_db st0 \<and> newOrderId env0 \<notin> set (map id_ord (orders st0)) \<and>
   placeOrder ''u2'' [] \<lparr>hostel = '''', room = ''''\<rparr> 5 env0 st0 =
     (Inr (newOrder ''u2'' [] \<lparr>hostel = '''', room = ''''\<rparr> 5 env0),
      st0\<lparr>orders := orders st0 @ [newOrder ''u2'' [] \<lparr>hostel = '''', room = ''''\<rparr> 5 env0]\<rparr>)"
proof -
  have h1: "wf_db st0" by (simp add: wf_db_def ex_defs)
  have h2: "newOrderId env0 \<notin> set (map id_ord (orders st0))" by (simp add: st0_def)
  from C3_no_validation_of_request_shape [OF h1 h2, THEN conjunct1,
      of "''u2''" "\<lparr>hostel = '''', room = ''''\<rparr>" 5]
  show ?thesis using h1 h2 by simp
qed

section \<open>Order placement: the total amount\<close>

lemma example_overcharged:
  "placeOrder ''u1'' [cartLine maggi 2] dd0 999 env0 st0 =
     (Inr (newOrder ''u1'' [cartLine maggi 2] dd0 999 env0),
      \<lparr>products = [maggi\<lparr>stock := 1\<rparr>, pen],
       orders = [newOrder ''u1'' [cartLine maggi 2] dd0 999 env0]\<rparr>)"
proof -
  have "validateStock (products st0) [cartLine maggi 2] = Inr ()"
    by (simp add: ex_defs)
  moreover have "bulkPut (deductStock (products st0) [cartLine maggi 2]) (products st0)
      = [maggi\<lparr>stock := 1\<rparr>, pen]"
    by (simp add: ex_defs bulkPut_def deductStock_def put_def)
  moreover have "orders st0 = []" by (simp add: st0_def)
  ultimately show ?thesis by (simp add: placeOrder_eq)
qed

text \<open>
  Claim C4, as stated, at a concrete input. Two units at a price of 14 are ordered with a
  total of 999; the call succeeds and the committed order records 999, not 28.
\<close>

theorem C4_counterexample:
  "placeOrder ''u1'' [cartLine maggi 2] dd0 999 env0 st0 =
     (Inr (newOrder ''u1'' [cartLine maggi 2] dd0 999 env0),
      \<lparr>products = [maggi\<lparr>stock := 1\<rparr>, pen],
       orders = [newOrder ''u1'' [cartLine maggi 2] dd0 999 env0]\<rparr>) \<and>
   totalAmount (newOrder ''u1'' [cartLine maggi 2] dd0 999 env0) = 999 \<and>
   linesTotal (items (newOrder ''u1'' [cartLine maggi 2] dd0 999 env0)) = 28"
proof -
  have "linesTotal [cartLine maggi 2] = 28" by (simp add: linesTotal_def ex_defs)
  then show ?thesis using example_overcharged by simp
qed

text \<open>
  Claim C4, amended. The total amount of the committed order is the total the caller
  supplied, stored as given. It is not compared with the lines: with any other total the same
  call succeeds as well, and records that other total.
\<close>

theorem C4_total_is_stored_unchecked:
  assumes "placeOrder uid its dd amount e st = (Inr ord, st')"
  shows "totalAmount ord = amount \<and>
         (\<forall>amount'. placeOrder uid its dd amount' e st =
            (Inr (ord\<lparr>totalAmount := amount'\<rparr>),
             st'\<lparr>orders := orders st @ [ord\<lparr>totalAmount := amount'\<rparr>]\<rparr>))"
proof -
  from assms have v: "validateStock (products st) its = Inr ()"
      "newOrderId e \<notin> set (map id_ord (orders st))"
    and ord: "ord = newOrder uid its dd amount e"
    and st': "st' = \<lparr>products = bulkPut (deductStock (products st) its) (products st),
                    orders = orders st @ [newOrder uid its dd amount e]\<rparr>"
    unfolding placeOrder_Inr by blast+
  have upd: "(newOrder uid its dd amount e)\<lparr>totalAmount := amount'\<rparr>
               = newOrder uid its dd amount' e" for amount'
    by (simp add: newOrder_def)
  from ord have "totalAmount ord = amount" by simp
  moreover have "placeOrder uid its dd amount' e st =
            (Inr (ord\<lparr>totalAmount := amount'\<rparr>),
             st'\<lparr>orders := orders st @ [ord\<lparr>totalAmount := amount'\<rparr>]\<rparr>)" for amount'
    using v by (simp add: placeOrder_eq ord st' upd)
  ultimately show ?thesis by blast
qed

theorem C4_witness:
  "placeOrder ''u1'' [cartLine maggi 2] dd0 999 env0 st0 =
     (Inr (newOrder ''u1'' [cartLine maggi 2] dd0 999 env0),
      \<lparr>products = [maggi\<lparr>stock := 1\<rparr>, pen],
       orders = [newOrder ''u1'' [cartLine maggi 2] dd0 999 env0]\<rparr>) \<and>
   totalAmount (newOrder ''u1'' [cartLine maggi 2] dd0 999 env0) = 999"
proof -
  note r = C4_total_is_stored_unchecked [OF example_overcharged]
  from r have "totalAmount (newOrder ''u1'' [cartLine maggi 2] dd0 999 env0) = 999"
    by (rule conjunct1)
  then show ?thesis using example_overcharged by simp
qed

section \<open>Order placement: several lines for one product\<close>

text \<open>
  Claim C9. When two lines of a successful call have the same product id, each of them was
  checked on its own against the one stock read before the call, the stock of the product
  goes down by the quantity of the first line with that id only, and the committed order
  holds all the lines; so with positive quantities the order records more of the product than
  was taken from its stock.
\<close>

theorem C9_duplicate_lines:
  assumes "wf_db st"
    and "placeOrder uid its dd amount e st = (Inr ord, st')"
    and "i < j" and "j < length its"
    and "id_prod (its ! i) = id_prod (its ! j)"
  shows "\<exists>p first.
           find (\<lambda>q. id_prod q = id_prod (its ! i)) (products st) = Some p \<and>
           quantity (its ! i) \<le> stock p \<and> quantity (its ! j) \<le> stock p \<and>
           find (\<lambda>x. id_prod x = id_prod (its ! i)) its = Some first \<and>
           find (\<lambda>q. id_prod q = id_prod (its ! i)) (products st')
             = Some (p\<lparr>stock := stock p - quantity first\<rparr>) \<and>
           items ord = its \<and>
           ((\<forall>x \<in> set its. id_prod x = id_prod (its ! i) \<longrightarrow> 0 < quantity x) \<longrightarrow>
              quantity first < recordedQty (id_prod (its ! i)) (items ord))"
proof -
  let ?pid = "id_prod (its ! i)"
  note po = placeOrder_success_products [OF assms(1,2)]
  from assms(3,4) have mi: "its ! i \<in> set its" and mj: "its ! j \<in> set its" by simp_all
  from po(4) mi have "sufficient (products st) (its ! i)" by blast
  then obtain p where p: "find (\<lambda>q. id_prod q = ?pid) (products st) = Some p"
    and qi: "quantity (its ! i) \<le> stock p"
    by (auto simp: sufficient_def split: option.splits)
  from po(4) mj have "sufficient (products st) (its ! j)" by blast
  with p assms(5) have qj: "quantity (its ! j) \<le> stock p"
    by (auto simp: sufficient_def split: option.splits)
  from mi have "find (\<lambda>x. id_prod x = ?pid) its \<noteq> None" by (auto simp: find_None_iff)
  then obtain first where f: "find (\<lambda>x. id_prod x = ?pid) its = Some first" by blast
  from p have idp: "id_prod p = ?pid" by (auto simp: find_Some_iff)
  have post: "find (\<lambda>q. id_prod q = ?pid) (products st') = Some (p\<lparr>stock := stock p - quantity first\<rparr>)"
    using p f idp by (simp add: po(1) find_deductStock)
  have its: "items ord = its" by (simp add: po(3))
  have more: "quantity first < recordedQty ?pid (items ord)"
    if pos: "\<forall>x \<in> set its. id_prod x = ?pid \<longrightarrow> 0 < quantity x"
  proof -
    from f obtain ys where ys: "filter (\<lambda>x. id_prod x = ?pid) its = first # ys"
      using find_filter_Cons by fastforce
    have "2 \<le> length (filter (\<lambda>x. id_prod x = ?pid) its)"
      using assms(3,4,5) by (intro length_filter_two [of i j]) simp_all
    with ys have ne: "ys \<noteq> []" by auto
    have "set ys \<subseteq> set (filter (\<lambda>x. id_prod x = ?pid) its)" using ys by auto
    with pos have "\<forall>x \<in> set ys. 0 < quantity x" by auto
    with ne have "0 < sum_list (map quantity ys)" by (rule sum_list_pos)
    with ys show ?thesis by (simp add: its recordedQty_def)
  qed
  from p qi qj f post its more show ?thesis by blast
qed

theorem C9_witness:
  "wf_db st0 \<and>
   placeOrder ''u1'' [cartLine maggi 2, cartLine maggi 2] dd0 56 env0 st0 =
     (Inr (newOrder ''u1'' [cartLine maggi 2, cartLine maggi 2] dd0 56 env0),
      \<lparr>products = [maggi\<lparr>stock := 1\<rparr>, pen],
       orders = [newOrder ''u1'' [cartLine maggi 2, cartLine maggi 2] dd0 56 env0]\<rparr>) \<and>
   (0::nat) < 1 \<and> 1 < length [cartLine maggi 2, cartLine maggi 2] \<and>
   id_prod ([cartLine maggi 2, cartLine maggi 2] ! 0) = id_prod ([cartLine maggi 2, cartLine maggi 2] ! 1) \<and>
   find (\<lambda>q. id_prod q = ''p1'') (products st0) = Some maggi \<and> stock maggi = 3 \<and>
   find (\<lambda>x. id_prod x = ''p1'') [cartLine maggi 2, cartLine maggi 2] = Some (cartLine maggi 2) \<and>
   quantity (cartLine maggi 2) = 2 \<and>
   quantity (cartLine maggi 2) < recordedQty ''p1'' [cartLine maggi 2, cartLine maggi 2]"
proof -
  let ?its = "[cartLine maggi 2, cartLine maggi 2]"
  have h3: "(0::nat) < 1" by simp
  have h4: "1 < length ?its" by simp
  have h5: "id_prod (?its ! 0) = id_prod (?its ! 1)" by simp
  have pid: "id_prod (?its ! 0) = ''p1''" by (simp add: ex_defs)
  have pos: "\<forall>x \<in> set ?its. id_prod x = id_prod (?its ! 0) \<longrightarrow> 0 < quantity x"
    by (simp add: ex_defs)
  from C9_duplicate_lines [OF wf_st0 example_duplicate_lines h3 h4 h5]
  obtain p first where
    a: "find (\<lambda>q. id_prod q = id_prod (?its ! 0)) (products st0) = Some p"
    and b: "find (\<lambda>x. id_prod x = id_prod (?its ! 0)) ?its = Some first"
    and d: "(\<forall>x \<in> set ?its. id_prod x = id_prod (?its ! 0) \<longrightarrow> 0 < quantity x) \<longrightarrow>
              quantity first < recordedQty (id_prod (?its ! 0)) (items (newOrder ''u1'' ?its dd0 56 env0))"
    by blast
  from b have first: "first = cartLine maggi 2" by simp
  from a have p: "p = maggi" by (simp add: ex_defs)
  from d pos have "quantity first < recordedQty (id_prod (?its ! 0)) (items (newOrder ''u1'' ?its dd0 56 env0))"
    by (rule mp)
  then have e: "quantity (cartLine maggi 2) < recordedQty ''p1'' ?its" unfolding pid first by simp
  have a': "find (\<lambda>q. id_prod q = ''p1'') (products st0) = Some maggi"
    using a unfolding pid p .
  have b': "find (\<lambda>x. id_prod x = ''p1'') ?its = Some (cartLine maggi 2)"
    using b unfolding pid first .
  have s: "stock maggi = 3" by (simp add: maggi_def)
  have q: "quantity (cartLine maggi 2) = 2" by (simp add: cartLine_def)
  from wf_st0 example_duplicate_lines h3 h4 h5 a' s b' q e show ?thesis by (intro conjI)
qed

section \<open>The stock invariant\<close>

text \<open>
  What the calls do keep: the tables stay well-formed, no stock becomes negative, and a call
  whose lines have pairwise distinct product ids keeps the whole invariant, as does a sequence
  of such calls.
\<close>

lemma recordedQty_distinct:
  "distinct (map id_prod its) \<Longrightarrow>
     recordedQty pid its = (case find (\<lambda>i. id_prod i = pid) its of None \<Rightarrow> 0 | Some i \<Rightarrow> quantity i)"
proof (induction its)
  case Nil
  then show ?case by (simp add: recordedQty_def)
next
  case (Cons a its)
  show ?case
  proof (cases "id_prod a = pid")
    case True
    with Cons.prems have "filter (\<lambda>i. id_prod i = pid) its = []"
      by (auto simp: filter_empty_conv image_iff)
    with True show ?thesis by (simp add: recordedQty_def)
  next
    case False
    with Cons show ?thesis by (simp add: recordedQty_def)
  qed
qed

lemma orderedQty_append:
  "orderedQty pid (os @ [ord]) =
     orderedQty pid os + (if status ord = confirmed then recordedQty pid (items ord) else 0)"
  by (simp add: orderedQty_def)

lemma wf_db_placeOrder:
  assumes "wf_db st"
  shows "wf_db (snd (placeOrder uid its dd amount e st))"
proof (cases "validateStock (products st) its = Inr () \<and> newOrderId e \<notin> set (map id_ord (orders st))")
  case True
  have "map id_prod (deductStock (products st) its) = map id_prod (products st)"
    by (simp add: deductStock_def comp_def split: option.splits cong: map_cong)
  with True assms show ?thesis
    by (simp add: placeOrder_eq wf_db_def bulkPut_deductStock)
next
  case False
  with assms show ?thesis by (auto simp: placeOrder_eq)
qed

lemma deductStock_nonneg:
  assumes "distinct (map id_prod prods)"
    and "\<forall>item \<in> set its. sufficient prods item"
    and "p \<in> set prods"
    and "find (\<lambda>i. id_prod i = id_prod p) its = Some item"
  shows "quantity item \<le> stock p"
proof -
  from assms(4) have "item \<in> set its" "id_prod item = id_prod p"
    by (auto simp: find_Some_iff)
  with assms(2) obtain p' where p': "find (\<lambda>q. id_prod q = id_prod p) prods = Some p'"
    "quantity item \<le> stock p'"
    by (auto simp: sufficient_def split: option.splits)
  from find_distinct_key [OF assms(1,3)] p'(1) have "p' = p" by simp
  with p'(2) show ?thesis by simp
qed

lemma stock_nonneg_placeOrder:
  assumes "wf_db st" and "list_all (\<lambda>p. 0 \<le> stock p) (products st)"
  shows "list_all (\<lambda>p. 0 \<le> stock p) (products (snd (placeOrder uid its dd amount e st)))"
proof (cases "validateStock (products st) its = Inr () \<and> newOrderId e \<notin> set (map id_ord (orders st))")
  case True
  from assms(1) have d: "distinct (map id_prod (products st))" by (simp add: wf_db_def)
  from True have suff: "\<forall>item \<in> set its. sufficient (products st) item"
    by (simp add: validateStock_ok_iff)
  have "0 \<le> stock (case find (\<lambda>i. id_prod i = id_prod p) its of
              Some item \<Rightarrow> p\<lparr>stock := stock p - quantity item\<rparr> | None \<Rightarrow> p)"
    if "p \<in> set (products st)" for p
  proof (cases "find (\<lambda>i. id_prod i = id_prod p) its")
    case None
    with that assms(2) show ?thesis by (simp add: list_all_iff)
  next
    case (Some item)
    from deductStock_nonneg [OF d suff that Some] Some show ?thesis by simp
  qed
  then have "list_all (\<lambda>p. 0 \<le> stock p) (deductStock (products st) its)"
    by (simp add: deductStock_def list_all_iff)
  with True d show ?thesis by (simp add: placeOrder_eq bulkPut_deductStock)
next
  case False
  with assms(2) show ?thesis by (auto simp: placeOrder_eq)
qed

lemma stock_invariant_placeOrder_distinct:
  assumes "wf_db st" and "stock_invariant orig st" and "distinct (map id_prod its)"
  shows "stock_invariant orig (snd (placeOrder uid its dd amount e st))"
proof (cases "validateStock (products st) its = Inr () \<and> newOrderId e \<notin> set (map id_ord (orders st))")
  case True
  from assms(1) have d: "distinct (map id_prod (products st))" by (simp add: wf_db_def)
  from True have suff: "\<forall>item \<in> set its. sufficient (products st) item"
    by (simp add: validateStock_ok_iff)
  let ?f = "\<lambda>p. case find (\<lambda>i. id_prod i = id_prod p) its of
              Some item \<Rightarrow> p\<lparr>stock := stock p - quantity item\<rparr> | None \<Rightarrow> p"
  let ?os = "orders st @ [newOrder uid its dd amount e]"
  have "0 \<le> stock (?f p) \<and> stock (?f p) = orig (id_prod (?f p)) - orderedQty (id_prod (?f p)) ?os"
    if "p \<in> set (products st)" for p
  proof -
    from that assms(2) have inv: "0 \<le> stock p"
      "stock p = orig (id_prod p) - orderedQty (id_prod p) (orders st)"
      by (auto simp: stock_invariant_def list_all_iff)
    show ?thesis
    proof (cases "find (\<lambda>i. id_prod i = id_prod p) its")
      case None
      with inv assms(3) show ?thesis
        by (simp add: orderedQty_append recordedQty_distinct)
    next
      case (Some item)
      from deductStock_nonneg [OF d suff that Some] have "quantity item \<le> stock p" .
      with inv Some assms(3) show ?thesis
        by (simp add: orderedQty_append recordedQty_distinct)
    qed
  qed
  then have "\<forall>q \<in> set (map ?f (products st)).
      0 \<le> stock q \<and> stock q = orig (id_prod q) - orderedQty (id_prod q) ?os"
    unfolding set_map by blast
  then have "stock_invariant orig \<lparr>products = deductStock (products st) its, orders = ?os\<rparr>"
    unfolding stock_invariant_def deductStock_def list_all_iff db.select_convs .
  with True d show ?thesis by (simp add: placeOrder_eq bulkPut_deductStock)
next
  case False
  with assms(2) show ?thesis by (auto simp: placeOrder_eq)
qed

lemma stock_invariant_placeOrders_distinct:
  "wf_db st \<Longrightarrow> stock_invariant orig st \<Longrightarrow>
   list_all (\<lambda>c. distinct (map id_prod (fst (snd c)))) cs \<Longrightarrow>
   stock_invariant orig (placeOrders cs st)"
proof (induction cs arbitrary: st)
  case Nil
  then show ?case by simp
next
  case (Cons c cs)
  obtain uid its dd amount e where c: "c = (uid, its, dd, amount, e)" by (cases c)
  from Cons.prems c have "wf_db (snd (placeOrder uid its dd amount e st))"
    "stock_invariant orig (snd (placeOrder uid its dd amount e st))"
    by (simp_all add: wf_db_placeOrder stock_invariant_placeOrder_distinct)
  moreover from Cons.prems have "list_all (\<lambda>c. distinct (map id_prod (fst (snd c)))) cs"
    by simp
  ultimately show ?case using Cons.IH c by simp
qed

text \<open>
  Claim C2, at a failing input. The store has 3 units of a product and no orders, so the
  invariant holds. One call with two lines of 2 units each for that product succeeds: the
  stock becomes 1, while the confirmed order records 4 units, and the original stock less the
  ordered quantity is -1. The invariant does not hold after the call.
\<close>

theorem C2_duplicate_lines_break_invariant:
  "stock_invariant orig0 st0 \<and>
   placeOrders [(''u1'', [cartLine maggi 2, cartLine maggi 2], dd0, 56, env0)] st0 =
     \<lparr>products = [maggi\<lparr>stock := 1\<rparr>, pen],
      orders = [newOrder ''u1'' [cartLine maggi 2, cartLine maggi 2] dd0 56 env0]\<rparr> \<and>
   status (newOrder ''u1'' [cartLine maggi 2, cartLine maggi 2] dd0 56 env0) = confirmed \<and>
   stock (maggi\<lparr>stock := 1\<rparr>) = 1 \<and>
   orig0 (id_prod maggi)
     - orderedQty (id_prod maggi) [newOrder ''u1'' [cartLine maggi 2, cartLine maggi 2] dd0 56 env0] = - 1 \<and>
   \<not> stock_invariant orig0
       (placeOrders [(''u1'', [cartLine maggi 2, cartLine maggi 2], dd0, 56, env0)] st0)"
proof -
  let ?ord = "newOrder ''u1'' [cartLine maggi 2, cartLine maggi 2] dd0 56 env0"
  have a: "stock_invariant orig0 st0"
    by (simp add: stock_invariant_def orderedQty_def orig0_def ex_defs)
  have b: "placeOrders [(''u1'', [cartLine maggi 2, cartLine maggi 2], dd0, 56, env0)] st0 =
     \<lparr>products = [maggi\<lparr>stock := 1\<rparr>, pen], orders = [?ord]\<rparr>"
    by (simp add: example_duplicate_lines)
  have q: "orderedQty (id_prod maggi) [?ord] = 4"
    by (simp add: orderedQty_def recordedQty_def ex_defs)
  have o: "orig0 (id_prod maggi) = 3" by (simp add: orig0_def maggi_def)
  have c: "orig0 (id_prod maggi) - orderedQty (id_prod maggi) [?ord] = - 1"
    unfolding q o by simp
  have d: "\<not> stock_invariant orig0 \<lparr>products = [maggi\<lparr>stock := 1\<rparr>, pen], orders = [?ord]\<rparr>"
    using q o by (simp add: stock_invariant_def)
  have s: "stock (maggi\<lparr>stock := 1\<rparr>) = 1" by simp
  have st: "status ?ord = confirmed" by simp
  from a b st s c d show ?thesis unfolding b by (intro conjI)
qed

section \<open>Order placement: the committed order\<close>

lemma newOrderId_prefix: "take 4 (newOrderId e) = ''ORD-''"
  by (simp add: newOrderId_def)

lemma newUserId_chars: "list_all base36_char r \<Longrightarrow> list_all base36_char (newUserId r)"
  by (auto simp: newUserId_def substr_def list_all_iff dest: in_set_takeD in_set_dropD)

lemma newOrderId_not_newUserId:
  assumes "list_all base36_char r"
  shows "newOrderId e \<noteq> newUserId r"
proof
  assume eq: "newOrderId e = newUserId r"
  have "CHR ''O'' \<in> set (newOrderId e)" by (simp add: newOrderId_def)
  with eq newUserId_chars [OF assms] have "base36_char CHR ''O''"
    by (simp add: list_all_iff)
  then show False by (simp add: base36_char_def)
qed

lemma base36_upper_chars:
  "\<forall>c \<in> set ''0123456789abcdefghijklmnopqrstuvwxyz.''.
     ascii_lower_char (upper_char c) = c \<and> upper_char c \<notin> set ''abcdefghijklmnopqrstuvwxyz''"
  by code_simp

lemma ascii_lower_upper_char: "base36_char c \<Longrightarrow> ascii_lower_char (upper_char c) = c"
  using base36_upper_chars unfolding base36_char_def by blast

lemma upper_char_no_lower:
  "base36_char c \<Longrightarrow> upper_char c \<notin> set ''abcdefghijklmnopqrstuvwxyz''"
  using base36_upper_chars unfolding base36_char_def by blast

lemma ascii_lower_toUpperCase:
  "list_all base36_char s \<Longrightarrow> ascii_lower (toUpperCase s) = s"
  by (induction s) (simp_all add: ascii_lower_def toUpperCase_def ascii_lower_upper_char)

lemma no_lower_case_toUpperCase:
  "list_all base36_char s \<Longrightarrow> no_lower_case (toUpperCase s)"
  unfolding no_lower_case_def toUpperCase_def
  by (induction s) (simp_all add: upper_char_no_lower del: set_simps)

lemma base36_substr: "list_all base36_char r \<Longrightarrow> list_all base36_char (take n (drop m r))"
  by (auto simp: list_all_iff dest: in_set_takeD in_set_dropD)

lemma newOrderId_unfold: "newOrderId e = ''ORD-'' @ toUpperCase (take 9 (drop 2 (random36 e)))"
  by (simp add: newOrderId_def substr_def)

lemma newOrderId_inj:
  assumes "list_all base36_char (random36 e)" "list_all base36_char (random36 e')"
    and "take 9 (drop 2 (random36 e')) \<noteq> take 9 (drop 2 (random36 e))"
  shows "newOrderId e' \<noteq> newOrderId e"
proof
  assume "newOrderId e' = newOrderId e"
  then have "toUpperCase (take 9 (drop 2 (random36 e'))) = toUpperCase (take 9 (drop 2 (random36 e)))"
    by (simp add: newOrderId_unfold)
  then have "ascii_lower (toUpperCase (take 9 (drop 2 (random36 e'))))
           = ascii_lower (toUpperCase (take 9 (drop 2 (random36 e))))" by simp
  with assms(1,2) have "take 9 (drop 2 (random36 e')) = take 9 (drop 2 (random36 e))"
    by (simp add: ascii_lower_toUpperCase base36_substr)
  with assms(3) show False by simp
qed

lemma orders_apply_op: "\<exists>new. orders (apply_op op st) = orders st @ new"
proof (cases op)
  case (PutProduct p)
  then show ?thesis by simp
next
  case (PlaceOrder uid its dd amount e)
  then show ?thesis by (simp add: placeOrder_eq)
qed

lemma orders_run_ops: "\<exists>new. orders (run_ops ops st) = orders st @ new"
proof (induction ops arbitrary: st)
  case Nil
  then show ?case by simp
next
  case (Cons op ops)
  from orders_apply_op obtain n1 where 1: "orders (apply_op op st) = orders st @ n1" by blast
  from Cons.IH obtain n2 where "orders (run_ops ops (apply_op op st)) = orders (apply_op op st) @ n2"
    by blast
  with 1 have "orders (run_ops (op # ops) st) = orders st @ (n1 @ n2)" by simp
  then show ?case by blast
qed

lemma find_append_Some: "find P xs = Some x \<Longrightarrow> find P (xs @ ys) = Some x"
  by (induction xs) (auto split: if_splits)

lemma map_id_prod_deductStock: "map id_prod (deductStock prods its) = map id_prod prods"
  unfolding deductStock_def by (induction prods) (simp_all split: option.splits)

lemma example_later_ops:
  "run_ops [PutProduct (maggi\<lparr>price := 99, stock := 50\<rparr>),
            PlaceOrder ''u2'' [cartLine pen 1] dd0 10 env1]
     \<lparr>products = [maggi\<lparr>stock := 1\<rparr>, pen],
      orders = [newOrder ''u1'' [cartLine maggi 2] dd0 999 env0]\<rparr>
   = \<lparr>products = [maggi\<lparr>price := 99, stock := 50\<rparr>, pen\<lparr>stock := 4\<rparr>],
      orders = [newOrder ''u1'' [cartLine maggi 2] dd0 999 env0,
                newOrder ''u2'' [cartLine pen 1] dd0 10 env1]\<rparr>"
  by code_simp

lemma example_env_base36:
  "list_all base36_char (random36 env0) \<and> list_all base36_char (random36 env1) \<and>
   take 9 (drop 2 (random36 env1)) \<noteq> take 9 (drop 2 (random36 env0)) \<and>
   no_order_prefix (products st0)"
  by code_simp

text \<open>
  Claim C8. The order that a successful call returns is the record built from the arguments
  of the call: status \<open>confirmed\<close>, the lines as they were passed, the timestamp read at the
  commit, and the identifier \<open>ORD-\<close> followed by the upper-case form of nine digits of the
  random string drawn in the call. The identifier is not the identifier of any order already
  in the table; for a random string in base 36 its random part has no lower-case letter and
  reads back as the nine digits drawn, so that a draw with other digits gives another
  identifier; it differs from every identifier that \<^verbatim>\<open>signup\<close> can give a user, and from
  every product identifier of a table in which none begins with \<open>ORD-\<close>. The order is a
  snapshot: after the call, whatever is done to the store next, product records written again
  with other prices and stocks or further calls to \<open>placeOrder\<close>, the order table holds under
  that identifier the very order that was returned.
\<close>

theorem C8_committed_order:
  assumes "placeOrder uid its dd amount e st = (Inr ord, st')"
  shows "ord = \<lparr>id_ord = ''ORD-'' @ toUpperCase (take 9 (drop 2 (random36 e))), userId = uid,
                items = its, totalAmount = amount, status = confirmed, createdAt = now e,
                deliveryDetails = dd\<rparr> \<and>
         status ord = confirmed \<and>
         take 4 (id_ord ord) = ''ORD-'' \<and>
         id_ord ord \<notin> set (map id_ord (orders st)) \<and>
         (list_all base36_char (random36 e) \<longrightarrow>
            ascii_lower (drop 4 (id_ord ord)) = take 9 (drop 2 (random36 e)) \<and>
            no_lower_case (drop 4 (id_ord ord)) \<and>
            (\<forall>e'::env. list_all base36_char (random36 e') \<and>
                  take 9 (drop 2 (random36 e')) \<noteq> take 9 (drop 2 (random36 e)) \<longrightarrow>
                  newOrderId e' \<noteq> id_ord ord)) \<and>
         (\<forall>r. list_all base36_char r \<longrightarrow> id_ord ord \<noteq> newUserId r) \<and>
         (wf_db st \<and> no_order_prefix (products st) \<longrightarrow>
            id_ord ord \<notin> set (map id_prod (products st'))) \<and>
         items ord = its \<and>
         orders st' = orders st @ [ord] \<and>
         (\<forall>ops. find (\<lambda>x. id_ord x = id_ord ord) (orders (run_ops ops st')) = Some ord)"
proof -
  from assms have n: "newOrderId e \<notin> set (map id_ord (orders st))"
    and o: "ord = newOrder uid its dd amount e"
    and s: "st' = \<lparr>products = bulkPut (deductStock (products st) its) (products st),
                   orders = orders st @ [newOrder uid its dd amount e]\<rparr>"
    unfolding placeOrder_Inr by blast+
  have i: "id_ord ord = ''ORD-'' @ toUpperCase (take 9 (drop 2 (random36 e)))"
    by (simp add: o newOrderId_unfold)
  have 1: "ord = \<lparr>id_ord = ''ORD-'' @ toUpperCase (take 9 (drop 2 (random36 e))), userId = uid,
                items = its, totalAmount = amount, status = confirmed, createdAt = now e,
                deliveryDetails = dd\<rparr>"
    by (simp add: o newOrder_def newOrderId_unfold)
  have 2: "status ord = confirmed" by (simp add: o)
  have 3: "take 4 (id_ord ord) = ''ORD-''" by (simp add: i)
  have 4: "id_ord ord \<notin> set (map id_ord (orders st))" using n by (simp add: o)
  have 5: "list_all base36_char (random36 e) \<longrightarrow>
            ascii_lower (drop 4 (id_ord ord)) = take 9 (drop 2 (random36 e)) \<and>
            no_lower_case (drop 4 (id_ord ord)) \<and>
            (\<forall>e'::env. list_all base36_char (random36 e') \<and>
                  take 9 (drop 2 (random36 e')) \<noteq> take 9 (drop 2 (random36 e)) \<longrightarrow>
                  newOrderId e' \<noteq> id_ord ord)"
  proof (intro impI conjI allI)
    assume b: "list_all base36_char (random36 e)"
    then have b': "list_all base36_char (take 9 (drop 2 (random36 e)))" by (rule base36_substr)
    have d: "drop 4 (id_ord ord) = toUpperCase (take 9 (drop 2 (random36 e)))" by (simp add: i)
    show "ascii_lower (drop 4 (id_ord ord)) = take 9 (drop 2 (random36 e))"
      unfolding d using b' by (rule ascii_lower_toUpperCase)
    show "no_lower_case (drop 4 (id_ord ord))"
      unfolding d using b' by (rule no_lower_case_toUpperCase)
    fix e' :: env
    assume "list_all base36_char (random36 e') \<and>
                  take 9 (drop 2 (random36 e')) \<noteq> take 9 (drop 2 (random36 e))"
    with b have "newOrderId e' \<noteq> newOrderId e" by (intro newOrderId_inj) simp_all
    then show "newOrderId e' \<noteq> id_ord ord" by (simp add: o)
  qed
  have 6: "\<forall>r. list_all base36_char r \<longrightarrow> id_ord ord \<noteq> newUserId r"
    by (simp add: o newOrderId_not_newUserId)
  have 7: "wf_db st \<and> no_order_prefix (products st) \<longrightarrow>
            id_ord ord \<notin> set (map id_prod (products st'))"
  proof
    assume a: "wf_db st \<and> no_order_prefix (products st)"
    then have "products st' = deductStock (products st) its"
      using s by (simp add: wf_db_def bulkPut_deductStock)
    then have ids: "map id_prod (products st') = map id_prod (products st)"
      by (simp add: map_id_prod_deductStock)
    have "take 4 pid \<noteq> ''ORD-''" if "pid \<in> set (map id_prod (products st))" for pid
      using a that by (auto simp: no_order_prefix_def list_all_iff)
    with 3 show "id_ord ord \<notin> set (map id_prod (products st'))"
      unfolding ids by blast
  qed
  have 8: "items ord = its" by (simp add: o)
  have 9: "orders st' = orders st @ [ord]" by (simp add: o s)
  have 10: "\<forall>ops. find (\<lambda>x. id_ord x = id_ord ord) (orders (run_ops ops st')) = Some ord"
  proof
    fix ops
    from 4 have "find (\<lambda>x. id_ord x = id_ord ord) (orders st) = None"
      by (auto simp: find_None_iff image_iff)
    then have "find (\<lambda>x. id_ord x = id_ord ord) (orders st') = Some ord"
      unfolding 9 by (simp add: find_append_absent)
    moreover obtain new where "orders (run_ops ops st') = orders st' @ new"
      using orders_run_ops by blast
    ultimately show "find (\<lambda>x. id_ord x = id_ord ord) (orders (run_ops ops st')) = Some ord"
      by (simp add: find_append_Some)
  qed
  from 1 2 3 4 5 6 7 8 9 10 show ?thesis by (intro conjI)
qed

theorem C8_witness:
  "placeOrder ''u1'' [cartLine maggi 2] dd0 999 env0 st0 =
     (Inr (newOrder ''u1'' [cartLine maggi 2] dd0 999 env0),
      \<lparr>products = [maggi\<lparr>stock := 1\<rparr>, pen],
       orders = [newOrder ''u1'' [cartLine maggi 2] dd0 999 env0]\<rparr>) \<and>
   list_all base36_char (random36 env0) \<and>
   (list_all base36_char (random36 env1) \<and>
      take 9 (drop 2 (random36 env1)) \<noteq> take 9 (drop 2 (random36 env0))) \<and>
   (wf_db st0 \<and> no_order_prefix (products st0)) \<and>
   id_ord (newOrder ''u1'' [cartLine maggi 2] dd0 999 env0) = ''ORD-4FZYO82MV'' \<and>
   status (newOrder ''u1'' [cartLine maggi 2] dd0 999 env0) = confirmed \<and>
   ascii_lower (drop 4 (id_ord (newOrder ''u1'' [cartLine maggi 2] dd0 999 env0))) = ''4fzyo82mv'' \<and>
   newOrderId env1 \<noteq> id_ord (newOrder ''u1'' [cartLine maggi 2] dd0 999 env0) \<and>
   id_ord (newOrder ''u1'' [cartLine maggi 2] dd0 999 env0)
     \<notin> set (map id_prod (products \<lparr>products = [maggi\<lparr>stock := 1\<rparr>, pen],
            orders = [newOrder ''u1'' [cartLine maggi 2] dd0 999 env0]\<rparr>)) \<and>
   find (\<lambda>x. id_ord x = id_ord (newOrder ''u1'' [cartLine maggi 2] dd0 999 env0))
     (orders \<lparr>products = [maggi\<lparr>price := 99, stock := 50\<rparr>, pen\<lparr>stock := 4\<rparr>],
        orders = [newOrder ''u1'' [cartLine maggi 2] dd0 999 env0,
                  newOrder ''u2'' [cartLine pen 1] dd0 10 env1]\<rparr>)
     = Some (newOrder ''u1'' [cartLine maggi 2] dd0 999 env0) \<and>
   map price (items (newOrder ''u1'' [cartLine maggi 2] dd0 999 env0)) = [14] \<and>
   map stock (items (newOrder ''u1'' [cartLine maggi 2] dd0 999 env0)) = [3]"
proof -
  let ?ord = "newOrder ''u1'' [cartLine maggi 2] dd0 999 env0"
  let ?st1 = "\<lparr>products = [maggi\<lparr>stock := 1\<rparr>, pen], orders = [?ord]\<rparr>"
  let ?ops = "[PutProduct (maggi\<lparr>price := 99, stock := 50\<rparr>),
               PlaceOrder ''u2'' [cartLine pen 1] dd0 10 env1]"
  note r = C8_committed_order [OF example_overcharged]
  from example_env_base36 have b0: "list_all base36_char (random36 env0)"
    and b1: "list_all base36_char (random36 env1) \<and>
      take 9 (drop 2 (random36 env1)) \<noteq> take 9 (drop 2 (random36 env0))"
    and np: "no_order_prefix (products st0)"
    by (elim conjE, simp)+
  from wf_st0 np have h7: "wf_db st0 \<and> no_order_prefix (products st0)" by (rule conjI)
  from r have c2: "status ?ord = confirmed" by (elim conjE)
  from r have c5: "list_all base36_char (random36 env0) \<longrightarrow>
            ascii_lower (drop 4 (id_ord ?ord)) = take 9 (drop 2 (random36 env0)) \<and>
            no_lower_case (drop 4 (id_ord ?ord)) \<and>
            (\<forall>e'::env. list_all base36_char (random36 e') \<and>
                  take 9 (drop 2 (random36 e')) \<noteq> take 9 (drop 2 (random36 env0)) \<longrightarrow>
                  newOrderId e' \<noteq> id_ord ?ord)"
    by (elim conjE)
  from r have c7: "wf_db st0 \<and> no_order_prefix (products st0) \<longrightarrow>
            id_ord ?ord \<notin> set (map id_prod (products ?st1))"
    by (elim conjE)
  from r have c10: "\<forall>ops. find (\<lambda>x. id_ord x = id_ord ?ord) (orders (run_ops ops ?st1)) = Some ?ord"
    by (elim conjE)
  from c5 b0 have d: "ascii_lower (drop 4 (id_ord ?ord)) = take 9 (drop 2 (random36 env0)) \<and>
            no_lower_case (drop 4 (id_ord ?ord)) \<and>
            (\<forall>e'::env. list_all base36_char (random36 e') \<and>
                  take 9 (drop 2 (random36 e')) \<noteq> take 9 (drop 2 (random36 env0)) \<longrightarrow>
                  newOrderId e' \<noteq> id_ord ?ord)"
    by (rule mp)
  from d have "ascii_lower (drop 4 (id_ord ?ord)) = take 9 (drop 2 (random36 env0))"
    by (rule conjunct1)
  then have low: "ascii_lower (drop 4 (id_ord ?ord)) = ''4fzyo82mv''" by (simp add: env0_def)
  from d [THEN conjunct2, THEN conjunct2, THEN spec, THEN mp, OF b1]
  have other: "newOrderId env1 \<noteq> id_ord ?ord" .
  from c7 h7 have pr: "id_ord ?ord \<notin> set (map id_prod (products ?st1))" by (rule mp)
  from c10 have "find (\<lambda>x. id_ord x = id_ord ?ord) (orders (run_ops ?ops ?st1)) = Some ?ord"
    by (rule spec)
  then have later: "find (\<lambda>x. id_ord x = id_ord ?ord)
     (orders \<lparr>products = [maggi\<lparr>price := 99, stock := 50\<rparr>, pen\<lparr>stock := 4\<rparr>],
        orders = [?ord, newOrder ''u2'' [cartLine pen 1] dd0 10 env1]\<rparr>) = Some ?ord"
    unfolding example_later_ops .
  have i: "id_ord ?ord = ''ORD-4FZYO82MV''" by (simp add: newOrderId_env0)
  have p: "map price (items ?ord) = [14]" by (simp add: ex_defs)
  have q: "map stock (items ?ord) = [3]" by (simp add: ex_defs)
  from b1 have b1a: "list_all base36_char (random36 env1)"
    and b1b: "take 9 (drop 2 (random36 env1)) \<noteq> take 9 (drop 2 (random36 env0))"
    by (rule conjunct1, rule conjunct2)
  from example_overcharged b0 b1a b1b wf_st0 np i c2 low other pr later p q
  show ?thesis by (intro conjI)
qed

section \<open>Cart: adding a product\<close>

lemma cartLine_sel [simp]:
  "id_prod (cartLine product q) = id_prod product"
  "quantity (cartLine product q) = q"
  "stock (cartLine product q) = stock product"
  "price (cartLine product q) = price product"
  "name (cartLine product q) = name product"
  by (simp_all add: cartLine_def)

lemma addToCart_present:
  assumes "find (\<lambda>item. id_prod item = id_prod product) prev = Some existing"
  shows "addToCart product prev =
           (if quantity existing + 1 \<le> stock product
            then map (\<lambda>item. if id_prod item = id_prod product
                              then item\<lparr>quantity := quantity item + 1\<rparr> else item) prev
            else prev)"
  using assms by (simp add: addToCart_def)

lemma addToCart_absent:
  assumes "find (\<lambda>item. id_prod item = id_prod product) prev = None"
  shows "addToCart product prev = (if 0 < stock product then prev @ [cartLine product 1] else prev)"
  using assms by (simp add: addToCart_def)

lemma cartQty_addToCart:
  "cartQty (id_prod product) (addToCart product cart) =
     (if cartQty (id_prod product) cart < stock product
      then cartQty (id_prod product) cart + 1 else cartQty (id_prod product) cart)"
proof (cases "find (\<lambda>item. id_prod item = id_prod product) cart")
  case None
  then show ?thesis
    by (simp add: addToCart_absent cartQty_def find_append_absent)
next
  case (Some existing)
  have "find (\<lambda>item. id_prod item = id_prod product)
          (map (\<lambda>item. if id_prod item = id_prod product
                         then item\<lparr>quantity := quantity item + 1\<rparr> else item) cart)
        = Some (existing\<lparr>quantity := quantity existing + 1\<rparr>)"
    using Some by (subst find_map_same_id) (auto simp: find_Some_iff)
  with Some show ?thesis
    by (auto simp: addToCart_present cartQty_def)
qed

lemma cartQty_addToCart_funpow:
  "cartQty (id_prod product) ((addToCart product ^^ n) cart) =
     (if stock product \<le> cartQty (id_prod product) cart then cartQty (id_prod product) cart
      else min (cartQty (id_prod product) cart + int n) (stock product))"
proof (induction n)
  case 0
  then show ?case by simp
next
  case (Suc n)
  then show ?case by (simp add: cartQty_addToCart)
qed

text \<open>
  Claim C7. \<open>addToCart\<close> adds 1 to the quantity of the line of the product when the new
  quantity does not exceed the stock of the product, adds a line with quantity 1 for a product
  that has no line when its stock is positive, and leaves the cart as it is otherwise. So
  \<open>n\<close> calls for a product with stock \<open>s\<close> that had no line give the quantity \<open>min n s\<close>.
\<close>

theorem C7_add_to_cart:
  "(\<forall>existing. find (\<lambda>item. id_prod item = id_prod product) prev = Some existing \<and>
       quantity existing + 1 \<le> stock product \<longrightarrow>
       addToCart product prev =
         map (\<lambda>item. if id_prod item = id_prod product
                       then item\<lparr>quantity := quantity item + 1\<rparr> else item) prev \<and>
       cartQty (id_prod product) (addToCart product prev) = quantity existing + 1) \<and>
   (\<forall>existing. find (\<lambda>item. id_prod item = id_prod product) prev = Some existing \<and>
       stock product < quantity existing + 1 \<longrightarrow> addToCart product prev = prev) \<and>
   (find (\<lambda>item. id_prod item = id_prod product) prev = None \<and> 0 < stock product \<longrightarrow>
       addToCart product prev = prev @ [cartLine product 1]) \<and>
   (find (\<lambda>item. id_prod item = id_prod product) prev = None \<and> stock product \<le> 0 \<longrightarrow>
       addToCart product prev = prev) \<and>
   (find (\<lambda>item. id_prod item = id_prod product) prev = None \<and> 0 \<le> stock product \<longrightarrow>
       (\<forall>n. cartQty (id_prod product) ((addToCart product ^^ n) prev)
              = min (int n) (stock product)))"
proof (intro conjI allI impI)
  fix existing
  assume a: "find (\<lambda>item. id_prod item = id_prod product) prev = Some existing \<and>
       quantity existing + 1 \<le> stock product"
  then show "addToCart product prev =
         map (\<lambda>item. if id_prod item = id_prod product
                       then item\<lparr>quantity := quantity item + 1\<rparr> else item) prev"
    by (simp add: addToCart_present)
  from a show "cartQty (id_prod product) (addToCart product prev) = quantity existing + 1"
    by (simp add: cartQty_addToCart) (simp add: cartQty_def)
next
  fix existing
  assume "find (\<lambda>item. id_prod item = id_prod product) prev = Some existing \<and>
       stock product < quantity existing + 1"
  then show "addToCart product prev = prev" by (simp add: addToCart_present)
next
  assume "find (\<lambda>item. id_prod item = id_prod product) prev = None \<and> 0 < stock product"
  then show "addToCart product prev = prev @ [cartLine product 1]"
    by (simp add: addToCart_absent)
next
  assume "find (\<lambda>item. id_prod item = id_prod product) prev = None \<and> stock product \<le> 0"
  then show "addToCart product prev = prev" by (simp add: addToCart_absent)
next
  fix n
  assume "find (\<lambda>item. id_prod item = id_prod product) prev = None \<and> 0 \<le> stock product"
  then have "cartQty (id_prod product) prev = 0" "0 \<le> stock product"
    by (simp_all add: cartQty_def)
  then show "cartQty (id_prod product) ((addToCart product ^^ n) prev) = min (int n) (stock product)"
    by (simp add: cartQty_addToCart_funpow)
qed

theorem C7_witness:
  "find (\<lambda>item. id_prod item = id_prod maggi) [] = None \<and> 0 \<le> stock maggi \<and> stock maggi = 3 \<and>
   cartQty (id_prod maggi) ((addToCart maggi ^^ 3) []) = 3 \<and>
   cartQty (id_prod maggi) ((addToCart maggi ^^ 4) []) = 3 \<and>
   (addToCart maggi ^^ 4) [] = [cartLine maggi 3]"
proof -
  have h: "find (\<lambda>item. id_prod item = id_prod maggi) [] = None \<and> 0 \<le> stock maggi"
    by (simp add: maggi_def)
  have s: "stock maggi = 3" by (simp add: maggi_def)
  have r: "\<forall>n. cartQty (id_prod maggi) ((addToCart maggi ^^ n) []) = min (int n) (stock maggi)"
    using C7_add_to_cart [of maggi "[]"] h by blast
  from r have "cartQty (id_prod maggi) ((addToCart maggi ^^ 3) []) = min (int 3) (stock maggi)"
    by (rule spec)
  then have 3: "cartQty (id_prod maggi) ((addToCart maggi ^^ 3) []) = 3" unfolding s by simp
  from r have "cartQty (id_prod maggi) ((addToCart maggi ^^ 4) []) = min (int 4) (stock maggi)"
    by (rule spec)
  then have 4: "cartQty (id_prod maggi) ((addToCart maggi ^^ 4) []) = 3" unfolding s by simp
  have a1: "addToCart maggi [] = [cartLine maggi 1]" by (simp add: addToCart_def s)
  have step: "addToCart maggi [cartLine maggi q] =
      (if 3 \<le> q then [cartLine maggi q] else [cartLine maggi (q + 1)])" for q
    by (simp add: addToCart_def s) (simp add: cartLine_def)
  have "(addToCart maggi ^^ 4) [] =
      addToCart maggi (addToCart maggi (addToCart maggi (addToCart maggi [])))"
    by (simp add: eval_nat_numeral)
  then have e: "(addToCart maggi ^^ 4) [] = [cartLine maggi 3]"
    by (simp add: a1 step)
  from h s 3 4 e show ?thesis by (intro conjI) (erule conjunct1, erule conjunct2)
qed

section \<open>Cart: changing a quantity\<close>

text \<open>The two cart operations keep a cart in the form \<open>cart_ok\<close>, which the empty cart has.\<close>

lemma cart_ok_Nil: "cart_ok []"
  by (simp add: cart_ok_def)

lemma cart_ok_addToCart:
  assumes "cart_ok cart"
  shows "cart_ok (addToCart product cart)"
proof (cases "find (\<lambda>item. id_prod item = id_prod product) cart")
  case None
  then have "id_prod product \<notin> set (map id_prod cart)"
    by (auto simp: find_None_iff)
  with assms None show ?thesis
    by (simp add: addToCart_absent cart_ok_def)
next
  case (Some existing)
  let ?h = "\<lambda>item. if id_prod item = id_prod product
                    then item\<lparr>quantity := quantity item + 1\<rparr> else item"
  have ids: "map id_prod (map ?h cart) = map id_prod cart" by (induction cart) auto
  have "list_all (\<lambda>item. 0 < quantity item) (map ?h cart)"
    using assms by (auto simp: cart_ok_def list_all_iff)
  moreover have "distinct (map id_prod cart)" using assms by (simp add: cart_ok_def)
  ultimately have "cart_ok (map ?h cart)" unfolding cart_ok_def ids by (rule conjI [rotated])
  with Some assms show ?thesis by (simp add: addToCart_present)
qed

lemma cart_ok_updateQuantity:
  assumes "cart_ok cart"
  shows "cart_ok (updateQuantity prods i delta cart)"
proof -
  let ?g = "\<lambda>item. if id_prod item = i then
                 (case find (\<lambda>p. id_prod p = i) prods of
                    None \<Rightarrow> item
                  | Some product \<Rightarrow>
                      let newQty = quantity item + delta in
                      if newQty > stock product then item
                      else item\<lparr>quantity := max 0 newQty\<rparr>)
               else item"
  have ids: "map id_prod (map ?g cart) = map id_prod cart"
    by (induction cart) (auto simp: Let_def split: option.splits)
  have "distinct (map id_prod cart)" using assms by (simp add: cart_ok_def)
  then have "distinct (map id_prod (map ?g cart))" unfolding ids .
  then have "distinct (map id_prod (filter (\<lambda>item. quantity item > 0) (map ?g cart)))"
    by (rule distinct_map_filter)
  moreover have "list_all (\<lambda>item. 0 < quantity item) (filter (\<lambda>item. quantity item > 0) (map ?g cart))"
    by (simp add: list_all_iff)
  ultimately show ?thesis by (simp add: cart_ok_def updateQuantity_def)
qed

lemma filter_map_cases:
  assumes "\<And>x. x \<in> set xs \<Longrightarrow> Q x \<Longrightarrow> g x = x \<and> P x"
    and "\<And>x. x \<in> set xs \<Longrightarrow> \<not> Q x \<Longrightarrow> \<not> P (g x)"
  shows "filter P (map g xs) = filter Q xs"
  using assms by (induction xs) auto

lemma cart_ok_same_id:
  assumes "cart_ok cart" "item \<in> set cart" "x \<in> set cart" "id_prod x = id_prod item"
  shows "x = item"
proof -
  from assms(1) have "inj_on id_prod (set cart)"
    by (simp add: cart_ok_def distinct_map)
  with assms(2,3,4) show ?thesis by (auto dest: inj_onD)
qed

lemma cart_ok_positive: "cart_ok cart \<Longrightarrow> x \<in> set cart \<Longrightarrow> 0 < quantity x"
  by (simp add: cart_ok_def list_all_iff)

lemma updateQuantity_unknown_product:
  assumes "cart_ok cart" and "find (\<lambda>p. id_prod p = i) prods = None"
  shows "updateQuantity prods i delta cart = cart"
proof -
  have "map (\<lambda>item. if id_prod item = i then
                 (case find (\<lambda>p. id_prod p = i) prods of
                    None \<Rightarrow> item
                  | Some product \<Rightarrow>
                      let newQty = quantity item + delta in
                      if newQty > stock product then item
                      else item\<lparr>quantity := max 0 newQty\<rparr>)
               else item) cart = cart"
    using assms(2) by (simp add: map_idI)
  moreover have "filter (\<lambda>item. quantity item > 0) cart = cart"
    using assms(1) by (simp add: cart_ok_def list_all_iff)
  ultimately show ?thesis by (simp add: updateQuantity_def)
qed

lemma updateQuantity_known_product:
  assumes ok: "cart_ok cart" and mem: "item \<in> set cart"
    and prod: "find (\<lambda>p. id_prod p = id_prod item) prods = Some product"
  shows "updateQuantity prods (id_prod item) delta cart =
           (if stock product < quantity item + delta then cart
            else if 0 < quantity item + delta
            then map (\<lambda>x. if id_prod x = id_prod item
                           then x\<lparr>quantity := quantity item + delta\<rparr> else x) cart
            else filter (\<lambda>x. id_prod x \<noteq> id_prod item) cart)"
proof -
  let ?g = "\<lambda>x. if id_prod x = id_prod item then
                 (case find (\<lambda>p. id_prod p = id_prod item) prods of
                    None \<Rightarrow> x
                  | Some product \<Rightarrow>
                      let newQty = quantity x + delta in
                      if newQty > stock product then x
                      else x\<lparr>quantity := max 0 newQty\<rparr>)
               else x"
  have upd: "updateQuantity prods (id_prod item) delta cart
               = filter (\<lambda>x. quantity x > 0) (map ?g cart)"
    by (simp add: updateQuantity_def)
  have same: "x = item" if "x \<in> set cart" "id_prod x = id_prod item" for x
    using cart_ok_same_id [OF ok mem that] .
  have pos: "0 < quantity x" if "x \<in> set cart" for x
    using cart_ok_positive [OF ok that] .
  have all_pos: "filter (\<lambda>x. quantity x > 0) cart = cart"
    using pos by (simp add: filter_id_conv)
  consider (reject) "stock product < quantity item + delta"
    | (set) "quantity item + delta \<le> stock product" "0 < quantity item + delta"
    | (remove) "quantity item + delta \<le> stock product" "quantity item + delta \<le> 0"
    by linarith
  then show ?thesis
  proof cases
    case reject
    have "?g x = x" if "x \<in> set cart" for x
      using same [OF that] prod reject by (auto simp: Let_def)
    then have "map ?g cart = cart" by (simp add: map_idI)
    with reject all_pos show ?thesis unfolding upd by simp
  next
    case set
    let ?h = "\<lambda>x. if id_prod x = id_prod item
                    then x\<lparr>quantity := quantity item + delta\<rparr> else x"
    have "?g x = ?h x" if "x \<in> set cart" for x
      using same [OF that] prod set by (auto simp: Let_def)
    then have m: "map ?g cart = map ?h cart" by (simp cong: map_cong)
    have "\<forall>y \<in> set (map ?h cart). 0 < quantity y"
      using pos set(2) by auto
    then have "filter (\<lambda>x. quantity x > 0) (map ?h cart) = map ?h cart"
      unfolding filter_id_conv .
    with set show ?thesis unfolding upd m by simp
  next
    case remove
    have "filter (\<lambda>x. quantity x > 0) (map ?g cart)
            = filter (\<lambda>x. id_prod x \<noteq> id_prod item) cart"
    proof (rule filter_map_cases)
      fix x assume "x \<in> set cart" "id_prod x \<noteq> id_prod item"
      then show "?g x = x \<and> 0 < quantity x" using pos by simp
    next
      fix x assume x: "x \<in> set cart" "\<not> id_prod x \<noteq> id_prod item"
      then have "x = item" using same by simp
      with prod remove show "\<not> 0 < quantity (?g x)" by (simp add: Let_def)
    qed
    with remove show ?thesis unfolding upd by simp
  qed
qed

lemma example_reject_not_clamp:
  "updateQuantity [maggi, pen] ''p2'' 10 [cartLine pen 2] = [cartLine pen 2]"
  by (simp add: updateQuantity_def maggi_def pen_def)

lemma example_stale_stock:
  "updateQuantity [maggi, pen\<lparr>stock := 3\<rparr>] ''p2'' (- 1) [cartLine pen 5] = [cartLine pen 5]"
  by (simp add: updateQuantity_def maggi_def pen_def)

lemma cart_ok_example: "cart_ok [cartLine maggi 1, cartLine pen 2]"
  by (simp add: cart_ok_def maggi_def pen_def)

text \<open>
  Claim C6, as stated, at two concrete inputs. A line with quantity 2 of a product with stock
  5 and a delta of 10: the quantity stays 2, it is not set to the adjusted value clamped to the
  stock, which is 5. A line with quantity 5 of a product whose known stock has dropped to 3 and
  a delta of -1: the quantity stays 5, above the known stock.
\<close>

theorem C6_counterexample:
  "updateQuantity [maggi, pen] ''p2'' 10 [cartLine pen 2] = [cartLine pen 2] \<and>
   stock pen = 5 \<and> clamped (stock pen) (quantity (cartLine pen 2) + 10) = 5 \<and>
   updateQuantity [maggi, pen\<lparr>stock := 3\<rparr>] ''p2'' (- 1) [cartLine pen 5] = [cartLine pen 5] \<and>
   stock (pen\<lparr>stock := 3\<rparr>) < quantity (cartLine pen 5)"
proof -
  have "stock pen = 5" by (simp add: pen_def)
  moreover have "clamped (stock pen) (quantity (cartLine pen 2) + 10) = 5"
    by (simp add: clamped_def pen_def)
  moreover have "stock (pen\<lparr>stock := 3\<rparr>) < quantity (cartLine pen 5)" by simp
  ultimately show ?thesis using example_reject_not_clamp example_stale_stock by (intro conjI)
qed

text \<open>
  Claim C6, amended. For a line of the cart, \<open>updateQuantity\<close> adds the delta to the
  quantity. When the sum exceeds the known stock of the product, or the product is not in the
  known product list, the cart is left as it is: the change is rejected, not clamped to the
  stock. Otherwise the quantity becomes the sum when the sum is positive, and the line is
  removed when the sum is zero or less. A quantity that did not exceed the known stock before
  the call does not exceed it after, and is never negative.
\<close>

theorem C6_update_quantity:
  assumes "cart_ok cart" and "item \<in> set cart"
  shows "(find (\<lambda>p. id_prod p = id_prod item) prods = None \<longrightarrow>
            updateQuantity prods (id_prod item) delta cart = cart) \<and>
         (\<forall>product. find (\<lambda>p. id_prod p = id_prod item) prods = Some product \<longrightarrow>
            (stock product < quantity item + delta \<longrightarrow>
               updateQuantity prods (id_prod item) delta cart = cart) \<and>
            (quantity item + delta \<le> stock product \<and> 0 < quantity item + delta \<longrightarrow>
               updateQuantity prods (id_prod item) delta cart =
                 map (\<lambda>x. if id_prod x = id_prod item
                           then x\<lparr>quantity := quantity item + delta\<rparr> else x) cart) \<and>
            (quantity item + delta \<le> stock product \<and> quantity item + delta \<le> 0 \<longrightarrow>
               updateQuantity prods (id_prod item) delta cart =
                 filter (\<lambda>x. id_prod x \<noteq> id_prod item) cart) \<and>
            (quantity item \<le> stock product \<longrightarrow>
               0 \<le> cartQty (id_prod item) (updateQuantity prods (id_prod item) delta cart) \<and>
               cartQty (id_prod item) (updateQuantity prods (id_prod item) delta cart)
                 \<le> stock product))"
proof (intro conjI allI impI)
  assume "find (\<lambda>p. id_prod p = id_prod item) prods = None"
  then show "updateQuantity prods (id_prod item) delta cart = cart"
    using assms(1) by (rule updateQuantity_unknown_product [rotated])
next
  fix product
  assume p: "find (\<lambda>p. id_prod p = id_prod item) prods = Some product"
  note eq = updateQuantity_known_product [OF assms p, of delta]
  {
    assume "stock product < quantity item + delta"
    then show "updateQuantity prods (id_prod item) delta cart = cart" by (simp add: eq)
  next
    assume "quantity item + delta \<le> stock product \<and> 0 < quantity item + delta"
    then show "updateQuantity prods (id_prod item) delta cart =
                 map (\<lambda>x. if id_prod x = id_prod item
                           then x\<lparr>quantity := quantity item + delta\<rparr> else x) cart"
      by (simp add: eq)
  next
    assume "quantity item + delta \<le> stock product \<and> quantity item + delta \<le> 0"
    then show "updateQuantity prods (id_prod item) delta cart =
                 filter (\<lambda>x. id_prod x \<noteq> id_prod item) cart"
      by (simp add: eq)
  }
  assume le: "quantity item \<le> stock product"
  from assms have fi: "find (\<lambda>x. id_prod x = id_prod item) cart = Some item"
    by (simp add: cart_ok_def find_distinct_key)
  from assms have qpos: "0 < quantity item" by (rule cart_ok_positive)
  have q: "cartQty (id_prod item) (updateQuantity prods (id_prod item) delta cart) =
             (if stock product < quantity item + delta then quantity item
              else if 0 < quantity item + delta then quantity item + delta else 0)"
  proof -
    have a: "cartQty (id_prod item) cart = quantity item" by (simp add: cartQty_def fi)
    have b: "cartQty (id_prod item) (map (\<lambda>x. if id_prod x = id_prod item
                           then x\<lparr>quantity := quantity item + delta\<rparr> else x) cart)
               = quantity item + delta"
      unfolding cartQty_def by (subst find_map_same_id) (simp_all add: fi)
    have "find (\<lambda>x. id_prod x = id_prod item) (filter (\<lambda>x. id_prod x \<noteq> id_prod item) cart) = None"
      by (simp add: find_None_iff)
    then have c: "cartQty (id_prod item) (filter (\<lambda>x. id_prod x \<noteq> id_prod item) cart) = 0"
      by (simp add: cartQty_def)
    show ?thesis unfolding eq using a b c by simp
  qed
  from q le qpos
  show "0 \<le> cartQty (id_prod item) (updateQuantity prods (id_prod item) delta cart)"
    by (simp split: if_splits)
  from q le qpos
  show "cartQty (id_prod item) (updateQuantity prods (id_prod item) delta cart) \<le> stock product"
    by (simp split: if_splits)
qed

theorem C6_witness:
  "cart_ok [cartLine maggi 1, cartLine pen 2] \<and>
   cartLine pen 2 \<in> set [cartLine maggi 1, cartLine pen 2] \<and>
   find (\<lambda>p. id_prod p = id_prod (cartLine pen 2)) [maggi, pen] = Some pen \<and>
   quantity (cartLine pen 2) + (- 100) \<le> stock pen \<and> quantity (cartLine pen 2) + (- 100) \<le> 0 \<and>
   updateQuantity [maggi, pen] (id_prod (cartLine pen 2)) (- 100) [cartLine maggi 1, cartLine pen 2]
     = [cartLine maggi 1]"
proof -
  have h2: "cartLine pen 2 \<in> set [cartLine maggi 1, cartLine pen 2]" by simp
  have h3: "find (\<lambda>p. id_prod p = id_prod (cartLine pen 2)) [maggi, pen] = Some pen"
    by (simp add: maggi_def pen_def)
  have h4: "quantity (cartLine pen 2) + (- 100) \<le> stock pen \<and> quantity (cartLine pen 2) + (- 100) \<le> 0"
    by (simp add: pen_def)
  note r = C6_update_quantity [OF cart_ok_example h2, of "[maggi, pen]" "- 100",
      THEN conjunct2, THEN spec, THEN mp, OF h3]
  from r [THEN conjunct2, THEN conjunct2, THEN conjunct1, THEN mp, OF h4]
  have "updateQuantity [maggi, pen] (id_prod (cartLine pen 2)) (- 100) [cartLine maggi 1, cartLine pen 2]
     = filter (\<lambda>x. id_prod x \<noteq> id_prod (cartLine pen 2)) [cartLine maggi 1, cartLine pen 2]" .
  also have "\<dots> = [cartLine maggi 1]" by (simp add: maggi_def pen_def)
  finally show ?thesis using cart_ok_example h2 h3 h4 by (intro conjI) (simp_all only:)
qed

section \<open>Order history\<close>

lemma mset_insert_desc: "mset (insert_desc x ys) = add_mset x (mset ys)"
  by (induction ys) auto

lemma mset_sortBy_desc: "mset (sortBy_desc xs) = mset xs"
  unfolding sortBy_desc_def by (induction xs) (auto simp: mset_insert_desc)

lemma set_insert_desc: "set (insert_desc x ys) = insert x (set ys)"
  by (induction ys) auto

lemma desc_insert_desc:
  "sorted_wrt (\<lambda>a b. createdAt b \<le> createdAt a) ys \<Longrightarrow>
   sorted_wrt (\<lambda>a b. createdAt b \<le> createdAt a) (insert_desc x ys)"
proof (induction ys)
  case Nil
  then show ?case by simp
next
  case (Cons y ys)
  show ?case
  proof (cases "createdAt y \<le> createdAt x")
    case True
    with Cons.prems show ?thesis by (auto intro: order_trans)
  next
    case False
    then have "createdAt x \<le> createdAt y" by simp
    with Cons show ?thesis by (auto simp: set_insert_desc)
  qed
qed

lemma desc_sortBy_desc: "sorted_wrt (\<lambda>a b. createdAt b \<le> createdAt a) (sortBy_desc xs)"
  unfolding sortBy_desc_def by (induction xs) (auto simp: desc_insert_desc)

lemma desc_distinct_strict:
  "sorted_wrt (\<lambda>a b. createdAt b \<le> createdAt a) xs \<Longrightarrow> distinct (map createdAt xs) \<Longrightarrow>
   sorted_wrt (\<lambda>a b. createdAt b < createdAt a) xs"
proof (induction xs)
  case Nil
  then show ?case by simp
next
  case (Cons x xs)
  have "createdAt y < createdAt x" if "y \<in> set xs" for y
  proof -
    from Cons.prems(1) that have "createdAt y \<le> createdAt x" by simp
    moreover from Cons.prems(2) that have "createdAt y \<noteq> createdAt x"
      by (auto simp: image_iff)
    ultimately show ?thesis by simp
  qed
  with Cons show ?case by simp
qed

lemma mset_getUserOrders:
  "mset (getUserOrders caseFold uid st) = mset (filter (\<lambda>ord. caseFold (userId ord) = caseFold uid) (orders st))"
  by (simp add: getUserOrders_def equalsIgnoreCase_def mset_sortBy_desc)

lemma example_same_instant:
  "placeOrders [(''u1'', [cartLine pen 1], dd0, 10, env0), (''u1'', [cartLine pen 1], dd0, 10, env1)] st0
     = \<lparr>products = [maggi, pen\<lparr>stock := 3\<rparr>],
        orders = [newOrder ''u1'' [cartLine pen 1] dd0 10 env0,
                  newOrder ''u1'' [cartLine pen 1] dd0 10 env1]\<rparr>"
  by code_simp

lemma example_history_tie:
  "getUserOrders ascii_lower ''u1''
     \<lparr>products = [maggi, pen\<lparr>stock := 3\<rparr>],
      orders = [newOrder ''u1'' [cartLine pen 1] dd0 10 env0,
                newOrder ''u1'' [cartLine pen 1] dd0 10 env1]\<rparr>
   = [newOrder ''u1'' [cartLine pen 1] dd0 10 env1, newOrder ''u1'' [cartLine pen 1] dd0 10 env0]"
  by code_simp

lemma example_history_case:
  "getUserOrders ascii_lower ''u1''
     \<lparr>products = [maggi, pen\<lparr>stock := 2\<rparr>],
      orders = [newOrder ''u1'' [cartLine pen 1] dd0 10 env0,
                newOrder ''u2'' [cartLine pen 1] dd0 10 env1,
                newOrder ''U1'' [cartLine pen 1] dd0 10 env2]\<rparr>
   = [newOrder ''U1'' [cartLine pen 1] dd0 10 env2, newOrder ''u1'' [cartLine pen 1] dd0 10 env0]"
  by code_simp

text \<open>
  Claim C5, as stated, at a concrete input. Two calls of one user are committed at the same
  instant (the same ISO string, different random identifiers). The history of the user holds
  both orders, and the two timestamps are equal: the list is not strictly descending.
\<close>

theorem C5_counterexample:
  "placeOrders [(''u1'', [cartLine pen 1], dd0, 10, env0), (''u1'', [cartLine pen 1], dd0, 10, env1)] st0
     = \<lparr>products = [maggi, pen\<lparr>stock := 3\<rparr>],
        orders = [newOrder ''u1'' [cartLine pen 1] dd0 10 env0,
                  newOrder ''u1'' [cartLine pen 1] dd0 10 env1]\<rparr> \<and>
   getUserOrders ascii_lower ''u1''
     \<lparr>products = [maggi, pen\<lparr>stock := 3\<rparr>],
      orders = [newOrder ''u1'' [cartLine pen 1] dd0 10 env0,
                newOrder ''u1'' [cartLine pen 1] dd0 10 env1]\<rparr>
   = [newOrder ''u1'' [cartLine pen 1] dd0 10 env1, newOrder ''u1'' [cartLine pen 1] dd0 10 env0] \<and>
   createdAt (newOrder ''u1'' [cartLine pen 1] dd0 10 env1)
     = createdAt (newOrder ''u1'' [cartLine pen 1] dd0 10 env0) \<and>
   \<not> strictly_descending
       (getUserOrders ascii_lower ''u1''
          \<lparr>products = [maggi, pen\<lparr>stock := 3\<rparr>],
           orders = [newOrder ''u1'' [cartLine pen 1] dd0 10 env0,
                     newOrder ''u1'' [cartLine pen 1] dd0 10 env1]\<rparr>)"
proof -
  have t: "createdAt (newOrder ''u1'' [cartLine pen 1] dd0 10 env1)
     = createdAt (newOrder ''u1'' [cartLine pen 1] dd0 10 env0)"
    by (simp add: env0_def env1_def)
  then have "\<not> strictly_descending
       [newOrder ''u1'' [cartLine pen 1] dd0 10 env1, newOrder ''u1'' [cartLine pen 1] dd0 10 env0]"
    by (simp add: strictly_descending_def)
  with t show ?thesis unfolding example_history_tie using example_same_instant by (intro conjI) simp_all
qed

text \<open>
  Claim C5, amended. Whatever the case folding of the engine is, \<open>getUserOrders\<close> returns
  exactly the orders of the table whose \<open>userId\<close> equals the given one up to letter case
  (their foldings are equal), each as often as it is in the table,
  ordered by descending creation timestamp; orders with equal timestamps are next to each
  other, and the order is strictly descending whenever the timestamps of the matching orders
  are pairwise different.
\<close>

theorem C5_order_history:
  "mset (getUserOrders caseFold uid st)
     = mset (filter (\<lambda>ord. caseFold (userId ord) = caseFold uid) (orders st)) \<and>
   descending (getUserOrders caseFold uid st) \<and>
   (distinct (map createdAt (filter (\<lambda>ord. caseFold (userId ord) = caseFold uid) (orders st))) \<longrightarrow>
      strictly_descending (getUserOrders caseFold uid st))"
  unfolding descending_def strictly_descending_def
proof (intro conjI impI)
  show m: "mset (getUserOrders caseFold uid st)
     = mset (filter (\<lambda>ord. caseFold (userId ord) = caseFold uid) (orders st))"
    by (rule mset_getUserOrders)
  show s: "sorted_wrt (\<lambda>a b. createdAt b \<le> createdAt a) (getUserOrders caseFold uid st)"
    by (simp add: getUserOrders_def desc_sortBy_desc)
  assume "distinct (map createdAt (filter (\<lambda>ord. caseFold (userId ord) = caseFold uid) (orders st)))"
  moreover from m have "mset (map createdAt (getUserOrders caseFold uid st))
     = mset (map createdAt (filter (\<lambda>ord. caseFold (userId ord) = caseFold uid) (orders st)))"
    by (metis mset_map)
  ultimately have "distinct (map createdAt (getUserOrders caseFold uid st))"
    by (metis mset_eq_imp_distinct_iff)
  with s show "sorted_wrt (\<lambda>a b. createdAt b < createdAt a) (getUserOrders caseFold uid st)"
    by (rule desc_distinct_strict)
qed

theorem C5_witness:
  "distinct (map createdAt (filter (\<lambda>ord. ascii_lower (userId ord) = ascii_lower ''u1'')
      (orders \<lparr>products = [maggi, pen\<lparr>stock := 2\<rparr>],
        orders = [newOrder ''u1'' [cartLine pen 1] dd0 10 env0,
                  newOrder ''u2'' [cartLine pen 1] dd0 10 env1,
                  newOrder ''U1'' [cartLine pen 1] dd0 10 env2]\<rparr>))) \<and>
   getUserOrders ascii_lower ''u1''
     \<lparr>products = [maggi, pen\<lparr>stock := 2\<rparr>],
      orders = [newOrder ''u1'' [cartLine pen 1] dd0 10 env0,
                newOrder ''u2'' [cartLine pen 1] dd0 10 env1,
                newOrder ''U1'' [cartLine pen 1] dd0 10 env2]\<rparr>
   = [newOrder ''U1'' [cartLine pen 1] dd0 10 env2, newOrder ''u1'' [cartLine pen 1] dd0 10 env0] \<and>
   strictly_descending
     [newOrder ''U1'' [cartLine pen 1] dd0 10 env2, newOrder ''u1'' [cartLine pen 1] dd0 10 env0]"
proof -
  let ?st = "\<lparr>products = [maggi, pen\<lparr>stock := 2\<rparr>],
      orders = [newOrder ''u1'' [cartLine pen 1] dd0 10 env0,
                newOrder ''u2'' [cartLine pen 1] dd0 10 env1,
                newOrder ''U1'' [cartLine pen 1] dd0 10 env2]\<rparr>"
  have h: "distinct (map createdAt (filter (\<lambda>ord. ascii_lower (userId ord) = ascii_lower ''u1'') (orders ?st)))"
    by code_simp
  from C5_order_history [of ascii_lower "''u1''" ?st, THEN conjunct2, THEN conjunct2, THEN mp, OF h]
  have "strictly_descending (getUserOrders ascii_lower ''u1'' ?st)" .
  then have "strictly_descending
     [newOrder ''U1'' [cartLine pen 1] dd0 10 env2, newOrder ''u1'' [cartLine pen 1] dd0 10 env0]"
    unfolding example_history_case .
  with h example_history_case show ?thesis by (intro conjI)
qed

end
